theory Spec2Isabelle
  imports Main "HOL-Library.Word" "HOL-Library.Sublist"
begin

chapter \<open>The services as functions\<close>

section \<open>JavaScript values\<close>

text \<open>
  A JavaScript string is a sequence of UTF-16 code units; \<open>length\<close>, \<open>split\<close>,
  \<open>trim\<close>, \<open>includes\<close> and the regular expressions of the source all work on code
  units. A \<open>Buffer\<close> is a sequence of bytes.
\<close>

type_synonym code_unit = "16 word"
type_synonym js_string = "code_unit list"
type_synonym byte = "8 word"

text \<open>String literals of the source (all of them ASCII).\<close>

definition js :: "string \<Rightarrow> js_string" where
  "js s = map (\<lambda>c. of_nat (of_char c)) s"

text \<open>
  \<open>WhiteSpace\<close> and \<open>LineTerminator\<close> of ECMAScript: what \<open>String.prototype.trim\<close>
  strips and what \<open>\s\<close> matches in a regular expression.
\<close>

definition js_whitespace :: "code_unit \<Rightarrow> bool" where
  "js_whitespace u =
     (let n = unat u in
        (9 \<le> n \<and> n \<le> 13) \<or> n = 32 \<or> n = 160 \<or> n = 5760 \<or>
        (8192 \<le> n \<and> n \<le> 8202) \<or> n = 8232 \<or> n = 8233 \<or> n = 8239 \<or>
        n = 8287 \<or> n = 12288 \<or> n = 65279)"

definition trim :: "js_string \<Rightarrow> js_string" where
  "trim s = rev (dropWhile js_whitespace (rev (dropWhile js_whitespace s)))"

text \<open>\<open>s.includes(p)\<close>: \<open>p\<close> occurs in \<open>s\<close> as a contiguous run.\<close>

definition js_includes :: "js_string \<Rightarrow> js_string \<Rightarrow> bool" where
  "js_includes s p = sublist p s"

text \<open>\<open>s.split(sep)\<close> for a separator of one code unit: never the empty list.\<close>

fun js_split :: "'a \<Rightarrow> 'a list \<Rightarrow> 'a list list" where
  "js_split sep [] = [[]]"
| "js_split sep (u # us) =
     (if u = sep then [] # js_split sep us
      else (case js_split sep us of
              [] \<Rightarrow> [[u]]
            | p # ps \<Rightarrow> (u # p) # ps))"

text \<open>
  A \<open>Date\<close> holds a time value in milliseconds since the epoch, or is an Invalid Date
  (time value \<open>NaN\<close>), which \<open>new Date(s)\<close> returns for a string it cannot read.
  Every relational comparison with an Invalid Date is false.
\<close>

datatype js_date = Date int | InvalidDate

fun date_ge :: "js_date \<Rightarrow> js_date \<Rightarrow> bool" where
  "date_ge (Date a) (Date b) = (a \<ge> b)"
| "date_ge _ _ = False"

fun date_gt :: "js_date \<Rightarrow> js_date \<Rightarrow> bool" where
  "date_gt (Date a) (Date b) = (a > b)"
| "date_gt _ _ = False"

fun valid_date :: "js_date \<Rightarrow> bool" where
  "valid_date (Date _) = True"
| "valid_date InvalidDate = False"

section \<open>Errors\<close>

text \<open>
  The error a \<open>googleapis\<close> call rejects with: \<open>code\<close> is an HTTP status (a number)
  or a Node error code (a string such as \<open>ECONNRESET\<close>).
\<close>

datatype error_code = NumCode int | StrCode js_string

record google_error =
  ge_code :: "error_code option"
  ge_message :: js_string

text \<open>
  Everything the services throw. The classes of \<open>errorHandler.ts\<close> carry their detail;
  \<open>PlainError\<close> is \<open>new Error(msg)\<close>, \<open>DbError\<close> an error of the database driver,
  \<open>RangeError\<close> and \<open>TypeError\<close> the built-in errors of the runtime.
\<close>

datatype app_error =
    BadRequestError js_string
  | UnauthorizedError js_string
  | NotFoundError js_string
  | InternalServerError js_string
  | GoogleError google_error
  | DbError js_string
  | PlainError js_string
  | RangeError js_string
  | TypeError js_string

text \<open>
  \<open>error.message\<close>: \<open>AppError\<close> passes its title to \<open>super\<close>, so the message of
  an \<open>AppError\<close> is the title of its class, not the detail.
\<close>

fun message :: "app_error \<Rightarrow> js_string" where
  "message (BadRequestError d) = js ''Bad Request''"
| "message (UnauthorizedError d) = js ''Unauthorized''"
| "message (NotFoundError d) = js ''Not Found''"
| "message (InternalServerError d) = js ''Internal Server Error''"
| "message (GoogleError e) = ge_message e"
| "message (DbError m) = m"
| "message (PlainError m) = m"
| "message (RangeError m) = m"
| "message (TypeError m) = m"

text \<open>\<open>error.code\<close>: only the errors of \<open>googleapis\<close> and of the driver have one.\<close>

fun code :: "app_error \<Rightarrow> error_code option" where
  "code (GoogleError e) = ge_code e"
| "code _ = None"

section \<open>Event input and its validation\<close>

record event_attendee_input =
  email :: js_string
  displayName :: "js_string option"
  optional :: "bool option"

datatype event_status = confirmed | tentative | cancelled

text \<open>
  \<open>CalendarEventInput\<close>. The title and the two dates are required by the type, but
  \<open>validateEventInput\<close> tests them for absence, so they are optional here.
\<close>

record calendar_event_input =
  title :: "js_string option"
  description :: "js_string option"
  startDate :: "js_date option"
  endDate :: "js_date option"
  location :: "js_string option"
  attendees :: "event_attendee_input list option"
  isAllDay :: "bool option"
  timezone :: "js_string option"
  status :: "event_status option"

text \<open>
  \<open>isValidEmail\<close>: the regular expression \<^verbatim>\<open>/^[^\s@]+@[^\s@]+\.[^\s@]+$/\<close>.
  The string has one \<open>@\<close>; before it a non-empty run, after it a run with a dot that
  is neither its first nor its last code unit; no whitespace anywhere.
\<close>

definition at_sign :: code_unit where "at_sign = 64"
definition dot :: code_unit where "dot = 46"
definition colon :: code_unit where "colon = 58"

definition plain_unit :: "code_unit \<Rightarrow> bool" where
  "plain_unit u = (\<not> js_whitespace u \<and> u \<noteq> at_sign)"

definition isValidEmail :: "js_string \<Rightarrow> bool" where
  "isValidEmail s =
     (let local = takeWhile (\<lambda>u. u \<noteq> at_sign) s;
          rest = dropWhile (\<lambda>u. u \<noteq> at_sign) s
      in case rest of
           [] \<Rightarrow> False
         | _ # domain \<Rightarrow>
             local \<noteq> [] \<and> list_all plain_unit local \<and> list_all plain_unit domain \<and>
             dot \<in> set (butlast (tl domain)))"

text \<open>
  The same expression read part by part: a run, the \<open>@\<close>, a run, a dot, a run, each
  run non-empty and free of whitespace and of \<open>@\<close>. It is compared with
  \<open>isValidEmail\<close> below.
\<close>

definition email_pattern :: "js_string \<Rightarrow> bool" where
  "email_pattern s =
     (\<exists>a b c. s = a @ [at_sign] @ b @ [dot] @ c \<and> a \<noteq> [] \<and> b \<noteq> [] \<and> c \<noteq> [] \<and>
              list_all plain_unit a \<and> list_all plain_unit b \<and> list_all plain_unit c)"

text \<open>The attendee loop of \<open>validateEventInput\<close>: the first bad attendee throws.\<close>

fun validateAttendees :: "event_attendee_input list \<Rightarrow> app_error + unit" where
  "validateAttendees [] = Inr ()"
| "validateAttendees (a # as) =
     (if email a = [] \<or> \<not> isValidEmail (email a)
      then Inl (BadRequestError (js ''Invalid attendee email: '' @ email a))
      else validateAttendees as)"

definition validateEventInput :: "calendar_event_input \<Rightarrow> app_error + unit" where
  "validateEventInput eventData =
     (case title eventData of
        None \<Rightarrow> Inl (BadRequestError (js ''Event title is required''))
      | Some t \<Rightarrow>
          if t = [] \<or> length (trim t) = 0
          then Inl (BadRequestError (js ''Event title is required''))
          else (case (startDate eventData, endDate eventData) of
                  (Some s, Some e) \<Rightarrow>
                    if date_ge s e
                    then Inl (BadRequestError (js ''End date must be after start date''))
                    else (case attendees eventData of
                            None \<Rightarrow> Inr ()
                          | Some as \<Rightarrow> validateAttendees as)
                | _ \<Rightarrow> Inl (BadRequestError (js ''Start date and end date are required''))))"

section \<open>Credential vault\<close>

subsection \<open>Encodings\<close>

text \<open>
  The \<open>utf8\<close> encoding of Node, from code units to bytes: a high surrogate followed by a
  low surrogate is one code point of four bytes; a surrogate on its own is written as
  U+FFFD (\<open>EF BF BD\<close>). The arithmetic is on natural numbers.
\<close>

definition high_surrogate :: "nat \<Rightarrow> bool" where
  "high_surrogate n = (55296 \<le> n \<and> n \<le> 56319)"

definition low_surrogate :: "nat \<Rightarrow> bool" where
  "low_surrogate n = (56320 \<le> n \<and> n \<le> 57343)"

definition utf8_of_code_point :: "nat \<Rightarrow> nat list" where
  "utf8_of_code_point c =
     (if c < 128 then [c]
      else if c < 2048 then [192 + c div 64, 128 + c mod 64]
      else if c < 65536 then [224 + c div 4096, 128 + c div 64 mod 64, 128 + c mod 64]
      else [240 + c div 262144, 128 + c div 4096 mod 64, 128 + c div 64 mod 64,
            128 + c mod 64])"

fun utf8_of_units :: "nat list \<Rightarrow> nat list" where
  "utf8_of_units [] = []"
| "utf8_of_units [h] =
     (if high_surrogate h \<or> low_surrogate h then [239, 191, 189] else utf8_of_code_point h)"
| "utf8_of_units (h # l # us) =
     (if high_surrogate h \<and> low_surrogate l
      then utf8_of_code_point (65536 + (h - 55296) * 1024 + (l - 56320)) @ utf8_of_units us
      else if high_surrogate h \<or> low_surrogate h
      then [239, 191, 189] @ utf8_of_units (l # us)
      else utf8_of_code_point h @ utf8_of_units (l # us))"

definition utf8_encode :: "js_string \<Rightarrow> byte list" where
  "utf8_encode s = map of_nat (utf8_of_units (map unat s))"

text \<open>
  The \<open>utf8\<close> decoding, from bytes to code units: a well-formed sequence gives its code
  point (two code units above U+FFFF); an ill-formed one gives U+FFFD for its longest
  well-formed start and decoding goes on after it.
\<close>

definition continuation :: "nat \<Rightarrow> bool" where
  "continuation b = (128 \<le> b \<and> b \<le> 191)"

definition second_of_three :: "nat \<Rightarrow> nat \<Rightarrow> bool" where
  "second_of_three b b2 =
     (if b = 224 then 160 \<le> b2 \<and> b2 \<le> 191
      else if b = 237 then 128 \<le> b2 \<and> b2 \<le> 159
      else continuation b2)"

definition second_of_four :: "nat \<Rightarrow> nat \<Rightarrow> bool" where
  "second_of_four b b2 =
     (if b = 240 then 144 \<le> b2 \<and> b2 \<le> 191
      else if b = 244 then 128 \<le> b2 \<and> b2 \<le> 143
      else continuation b2)"

definition units_of_code_point :: "nat \<Rightarrow> nat list" where
  "units_of_code_point c =
     (if c < 65536 then [c]
      else [55296 + (c - 65536) div 1024, 56320 + (c - 65536) mod 1024])"

fun units_of_utf8 :: "nat list \<Rightarrow> nat list" where
  "units_of_utf8 [] = []"
| "units_of_utf8 (b # bs) =
     (if b < 128 then b # units_of_utf8 bs
      else if 194 \<le> b \<and> b \<le> 223 then
        (case bs of
           [] \<Rightarrow> [65533]
         | b2 # r2 \<Rightarrow>
             if continuation b2
             then units_of_code_point ((b - 192) * 64 + (b2 - 128)) @ units_of_utf8 r2
             else 65533 # units_of_utf8 bs)
      else if 224 \<le> b \<and> b \<le> 239 then
        (case bs of
           [] \<Rightarrow> [65533]
         | b2 # r2 \<Rightarrow>
             if second_of_three b b2 then
               (case r2 of
                  [] \<Rightarrow> [65533]
                | b3 # r3 \<Rightarrow>
                    if continuation b3
                    then units_of_code_point
                           ((b - 224) * 4096 + (b2 - 128) * 64 + (b3 - 128)) @
                         units_of_utf8 r3
                    else 65533 # units_of_utf8 r2)
             else 65533 # units_of_utf8 bs)
      else if 240 \<le> b \<and> b \<le> 244 then
        (case bs of
           [] \<Rightarrow> [65533]
         | b2 # r2 \<Rightarrow>
             if second_of_four b b2 then
               (case r2 of
                  [] \<Rightarrow> [65533]
                | b3 # r3 \<Rightarrow>
                    if continuation b3 then
                      (case r3 of
                         [] \<Rightarrow> [65533]
                       | b4 # r4 \<Rightarrow>
                           if continuation b4
                           then units_of_code_point
                                  ((b - 240) * 262144 + (b2 - 128) * 4096 +
                                   (b3 - 128) * 64 + (b4 - 128)) @
                                units_of_utf8 r4
                           else 65533 # units_of_utf8 r3)
                    else 65533 # units_of_utf8 r2)
             else 65533 # units_of_utf8 bs)
      else 65533 # units_of_utf8 bs)"

definition utf8_decode :: "byte list \<Rightarrow> js_string" where
  "utf8_decode bs = map of_nat (units_of_utf8 (map unat bs))"

text \<open>A string is well formed when every surrogate in it is half of a pair.\<close>

fun paired_surrogates :: "nat list \<Rightarrow> bool" where
  "paired_surrogates [] = True"
| "paired_surrogates [h] = (\<not> high_surrogate h \<and> \<not> low_surrogate h)"
| "paired_surrogates (h # l # us) =
     (if high_surrogate h then low_surrogate l \<and> paired_surrogates us
      else \<not> low_surrogate h \<and> paired_surrogates (l # us))"

definition well_formed :: "js_string \<Rightarrow> bool" where
  "well_formed s = paired_surrogates (map unat s)"

text \<open>
  The \<open>hex\<close> encoding: two lower-case digits for each byte. Decoding reads pairs of
  digits of either case and stops at the first pair that is not one.
\<close>

definition hex_digit :: "nat \<Rightarrow> code_unit" where
  "hex_digit n = of_nat (if n < 10 then 48 + n else 87 + n)"

definition hex_encode :: "byte list \<Rightarrow> js_string" where
  "hex_encode bs = concat (map (\<lambda>b. [hex_digit (unat b div 16), hex_digit (unat b mod 16)]) bs)"

definition hex_value :: "code_unit \<Rightarrow> nat option" where
  "hex_value u =
     (let n = unat u in
        if 48 \<le> n \<and> n \<le> 57 then Some (n - 48)
        else if 97 \<le> n \<and> n \<le> 102 then Some (n - 87)
        else if 65 \<le> n \<and> n \<le> 70 then Some (n - 55)
        else None)"

fun hex_decode :: "js_string \<Rightarrow> byte list" where
  "hex_decode (a # b # r) =
     (case (hex_value a, hex_value b) of
        (Some x, Some y) \<Rightarrow> of_nat (16 * x + y) # hex_decode r
      | _ \<Rightarrow> [])"
| "hex_decode _ = []"

definition is_hex :: "js_string \<Rightarrow> bool" where
  "is_hex s = list_all (\<lambda>u. hex_value u \<noteq> None) s"

subsection \<open>Wrapping and unwrapping\<close>

text \<open>
  \<open>crypto.createCipher('aes-256-cbc', ENCRYPTION_KEY)\<close> and \<open>createDecipher\<close> with
  the same key are the runtime's: \<open>update\<close> followed by \<open>final\<close> maps the bytes of
  the plaintext to the bytes of the ciphertext and back. Both derive key and IV from
  \<open>ENCRYPTION_KEY\<close> alone, so each is a function of its input bytes; \<open>None\<close> is a
  throw (bad padding on \<open>final\<close>, or the functions missing from the runtime).
\<close>

record vault =
  cipher_run :: "byte list \<Rightarrow> byte list option"
  decipher_run :: "byte list \<Rightarrow> byte list option"

text \<open>\<open>iv\<close> is the value of \<open>crypto.randomBytes(IV_LENGTH)\<close>.\<close>

definition encrypt :: "vault \<Rightarrow> byte list \<Rightarrow> js_string \<Rightarrow> app_error + js_string" where
  "encrypt v iv text =
     (case cipher_run v (utf8_encode text) of
        None \<Rightarrow> Inl (InternalServerError (js ''Failed to encrypt token''))
      | Some encrypted \<Rightarrow> Inr (hex_encode iv @ [colon] @ hex_encode encrypted))"

definition decrypt :: "vault \<Rightarrow> js_string \<Rightarrow> app_error + js_string" where
  "decrypt v encryptedText =
     (case js_split colon encryptedText of
        [ivHex, encrypted] \<Rightarrow>
          (case decipher_run v (hex_decode encrypted) of
             None \<Rightarrow> Inl (InternalServerError (js ''Failed to decrypt token''))
           | Some decrypted \<Rightarrow> Inr (utf8_decode decrypted))
      | _ \<Rightarrow> Inl (InternalServerError (js ''Failed to decrypt token'')))"

text \<open>
  What the runtime's cipher pair promises at a plaintext: if enciphering it succeeds,
  deciphering the result gives it back.
\<close>

definition inverts_at :: "vault \<Rightarrow> byte list \<Rightarrow> bool" where
  "inverts_at v p =
     (case cipher_run v p of None \<Rightarrow> True | Some c \<Rightarrow> decipher_run v c = Some p)"

text \<open>
  A stand-in for the cipher pair in examples: it adds one to every byte and reverses
  the order, and takes one off on the way back.
\<close>

definition example_vault :: vault where
  "example_vault =
     \<lparr>cipher_run = (\<lambda>p. Some (rev (map (\<lambda>b. b + 1) p))),
      decipher_run = (\<lambda>c. Some (rev (map (\<lambda>b. b - 1) c)))\<rparr>"

section \<open>The database\<close>

text \<open>
  A value bound to a placeholder of a statement: \<open>null\<close> and \<open>undefined\<close> are sent as
  \<open>NULL\<close>, a string as text, a \<open>Date\<close> as a timestamp.
\<close>

datatype sql_value = SqlNull | SqlText js_string | SqlTimestamp js_date | SqlBool bool | SqlInt int

text \<open>
  Table \<open>users\<close>, keyed by \<open>id\<close>: the columns the token service writes. Table
  \<open>sync_state\<close>, keyed by \<open>user_id\<close>; its columns have defaults but no \<open>NOT NULL\<close>.
  Table \<open>calendar_events\<close>, in insertion order. Of the column widths, that of
  \<open>next_sync_token\<close> is modelled, in \<open>updateSyncState\<close>; identifiers are opaque keys.
\<close>

record user_row =
  user_name :: "js_string option"
  picture_url :: "js_string option"
  access_token :: "js_string option"
  refresh_token :: "js_string option"
  token_expires_at :: "int option"

record sync_state_row =
  next_sync_token :: "js_string option"
  last_sync_time :: "int option"
  full_sync_completed :: "bool option"
  sync_in_progress :: "bool option"
  sync_error :: "js_string option"
  sync_error_count :: "int option"

datatype event_source = google | manual | imported

record event_row =
  ev_id :: js_string
  ev_user_id :: js_string
  google_event_id :: "js_string option"
  ev_title :: js_string
  ev_description :: "js_string option"
  start_date :: int
  end_date :: int
  ev_location :: "js_string option"
  ev_attendees :: "event_attendee_input list"
  ev_status :: event_status
  ev_source :: event_source
  is_all_day :: bool
  ev_timezone :: js_string
  created_at :: int
  updated_at :: int
  last_modified :: int

text \<open>
  An \<open>UPDATE users SET column = $i, ... WHERE id = $j\<close> as data: the placeholder of
  each assigned column and the placeholder of the \<open>WHERE\<close> clause.
\<close>

datatype users_column =
  name_col | picture_url_col | access_token_col | refresh_token_col | token_expires_at_col

record users_update =
  set_clause :: "(users_column \<times> nat) list"
  where_id :: nat

text \<open>The number of parameters a statement requires: its highest placeholder.\<close>

definition placeholder_count :: "users_update \<Rightarrow> nat" where
  "placeholder_count q = fold max (map snd (set_clause q)) (where_id q)"

fun assign :: "users_column \<Rightarrow> sql_value \<Rightarrow> user_row \<Rightarrow> app_error + user_row" where
  "assign name_col SqlNull r = Inr (r\<lparr>user_name := None\<rparr>)"
| "assign name_col (SqlText t) r = Inr (r\<lparr>user_name := Some t\<rparr>)"
| "assign picture_url_col SqlNull r = Inr (r\<lparr>picture_url := None\<rparr>)"
| "assign picture_url_col (SqlText t) r = Inr (r\<lparr>picture_url := Some t\<rparr>)"
| "assign access_token_col SqlNull r = Inr (r\<lparr>access_token := None\<rparr>)"
| "assign access_token_col (SqlText t) r = Inr (r\<lparr>access_token := Some t\<rparr>)"
| "assign refresh_token_col SqlNull r = Inr (r\<lparr>refresh_token := None\<rparr>)"
| "assign refresh_token_col (SqlText t) r = Inr (r\<lparr>refresh_token := Some t\<rparr>)"
| "assign token_expires_at_col SqlNull r = Inr (r\<lparr>token_expires_at := None\<rparr>)"
| "assign token_expires_at_col (SqlTimestamp (Date t)) r = Inr (r\<lparr>token_expires_at := Some t\<rparr>)"
| "assign _ _ r = Inl (DbError (js ''invalid input value for the column''))"

fun assign_all ::
  "(users_column \<times> nat) list \<Rightarrow> sql_value list \<Rightarrow> user_row \<Rightarrow> app_error + user_row" where
  "assign_all [] params r = Inr r"
| "assign_all ((c, i) # cs) params r =
     (case assign c (params ! (i - 1)) r of
        Inl e \<Rightarrow> Inl e
      | Inr r' \<Rightarrow> assign_all cs params r')"

text \<open>
  Running the statement with a list of parameters. PostgreSQL refuses a bind whose
  number of parameters is not the number the statement requires. A row is updated when
  its \<open>id\<close> equals the \<open>WHERE\<close> parameter; no row matching is not an error.
\<close>

definition run_users_update ::
  "users_update \<Rightarrow> sql_value list \<Rightarrow> (js_string \<rightharpoonup> user_row) \<Rightarrow>
   app_error + (js_string \<rightharpoonup> user_row)" where
  "run_users_update q params table =
     (if length params \<noteq> placeholder_count q
      then Inl (DbError (js ''bind message supplies the wrong number of parameters''))
      else (case params ! (where_id q - 1) of
              SqlText ident \<Rightarrow>
                (case table ident of
                   None \<Rightarrow> Inr table
                 | Some r \<Rightarrow>
                     (case assign_all (set_clause q) params r of
                        Inl e \<Rightarrow> Inl e
                      | Inr r' \<Rightarrow> Inr (table(ident \<mapsto> r'))))
            | SqlNull \<Rightarrow> Inr table
            | _ \<Rightarrow> Inl (DbError (js ''invalid input value for the column''))))"

section \<open>The upstream provider and the world\<close>

text \<open>What \<open>oauth2Client.refreshAccessToken\<close> resolves with.\<close>

record credentials =
  cr_access_token :: "js_string option"
  cr_refresh_token :: "js_string option"
  cr_expiry_date :: "int option"
  cr_scope :: "js_string option"

text \<open>
  An event as the provider sends it. Its date strings are held as the \<open>Date\<close> that
  \<open>new Date\<close> makes of them (an Invalid Date for a string it cannot read, and for
  \<open>updated\<close> when the field is missing).
\<close>

record google_event_time =
  gt_dateTime :: "js_date option"
  gt_date :: "js_date option"
  gt_timeZone :: "js_string option"

record google_attendee =
  ga_email :: js_string
  ga_displayName :: "js_string option"
  ga_optional :: "bool option"

record google_event =
  g_id :: "js_string option"
  g_summary :: "js_string option"
  g_description :: "js_string option"
  g_start :: "google_event_time option"
  g_end :: "google_event_time option"
  g_location :: "js_string option"
  g_attendees :: "google_attendee list option"
  g_status :: "event_status option"
  g_updated :: js_date

text \<open>The parameters of \<open>calendar.events.list\<close> and the data of its response.\<close>

record list_request =
  rq_timeMin :: "int option"
  rq_timeMax :: "int option"
  rq_maxResults :: int
  rq_pageToken :: "js_string option"
  rq_syncToken :: "js_string option"
  rq_singleEvents :: bool
  rq_orderByStartTime :: bool

record list_response =
  rs_items :: "google_event list option"
  rs_nextPageToken :: "js_string option"
  rs_nextSyncToken :: "js_string option"

text \<open>
  Everything outside the two services is a parameter: the cipher pair, the random
  generators, the answers of the provider (each a function of the number of requests
  sent before it and of the request) and the \<open>ILIKE\<close> of the database (text, then
  pattern).
\<close>

record env =
  the_vault :: vault
  randomBytes :: "nat \<Rightarrow> byte list"
  uuid_generate_v4 :: "nat \<Rightarrow> js_string"
  refreshAccessToken :: "nat \<Rightarrow> js_string \<Rightarrow> google_error + credentials"
  events_list :: "nat \<Rightarrow> list_request \<Rightarrow> google_error + list_response"
  events_insert :: "nat \<Rightarrow> google_event \<Rightarrow> google_error + js_string option"
  ilike :: "js_string \<Rightarrow> js_string \<Rightarrow> bool"

text \<open>The process-wide counters of \<open>CalendarService\<close> (the timings are left out).\<close>

record service_metrics =
  apiCallsCount :: nat
  rateLimitHits :: nat
  quotaExceededCount :: nat
  networkErrors :: nat
  authErrors :: nat

text \<open>
  The state the services read and write: the three tables, the counters, and how many
  requests have been sent upstream and how many random values drawn so far.
\<close>

record world =
  users :: "js_string \<rightharpoonup> user_row"
  sync_state :: "js_string \<rightharpoonup> sync_state_row"
  calendar_events :: "event_row list"
  metrics :: service_metrics
  requests :: nat
  draws :: nat

section \<open>Token service\<close>

record google_tokens =
  gt_access_token :: js_string
  gt_refresh_token :: "js_string option"
  gt_expires_at :: "int option"
  gt_scope :: "js_string option"

text \<open>\<open>EncryptedTokens\<close>: what \<open>getStoredTokens\<close> returns, already decrypted.\<close>

record stored_tokens =
  accessToken :: js_string
  refreshToken :: "js_string option"
  expiresAt :: "int option"

text \<open>\<open>this.encrypt(text)\<close> with the next draw of \<open>crypto.randomBytes\<close>.\<close>

definition encrypt_next :: "env \<Rightarrow> js_string \<Rightarrow> world \<Rightarrow> (app_error + js_string) \<times> world" where
  "encrypt_next env text w =
     (encrypt (the_vault env) (randomBytes env (draws w)) text, w\<lparr>draws := draws w + 1\<rparr>)"

text \<open>\<open>tokens.refresh_token ? this.encrypt(tokens.refresh_token) : null\<close>.\<close>

definition encrypt_refresh ::
  "env \<Rightarrow> js_string option \<Rightarrow> world \<Rightarrow> (app_error + sql_value) \<times> world" where
  "encrypt_refresh env refresh w =
     (case refresh of
        None \<Rightarrow> (Inr SqlNull, w)
      | Some r \<Rightarrow>
          if r = [] then (Inr SqlNull, w)
          else (case encrypt_next env r w of
                  (Inl e, w') \<Rightarrow> (Inl e, w')
                | (Inr c, w') \<Rightarrow> (Inr (SqlText c), w')))"

definition timestamp_param :: "int option \<Rightarrow> sql_value" where
  "timestamp_param t = (case t of None \<Rightarrow> SqlNull | Some ms \<Rightarrow> SqlTimestamp (Date ms))"

definition text_param :: "js_string option \<Rightarrow> sql_value" where
  "text_param t = (case t of None \<Rightarrow> SqlNull | Some x \<Rightarrow> SqlText x)"

text \<open>
  The statement of \<open>storeTokens\<close>: \<open>access_token = $1, refresh_token = $2,
  token_expires_at = $3 ... WHERE id = $1\<close>, run with the four parameters
  \<open>[userId, encryptedAccessToken, encryptedRefreshToken, tokens.expires_at]\<close>.
\<close>

definition storeTokens_sql :: users_update where
  "storeTokens_sql =
     \<lparr>set_clause = [(access_token_col, 1), (refresh_token_col, 2), (token_expires_at_col, 3)],
      where_id = 1\<rparr>"

definition storeTokens ::
  "env \<Rightarrow> js_string \<Rightarrow> google_tokens \<Rightarrow> world \<Rightarrow> (app_error + unit) \<times> world" where
  "storeTokens env userId tokens w =
     (let failed = Inl (InternalServerError (js ''Failed to store authentication tokens'')) in
      case encrypt_next env (gt_access_token tokens) w of
        (Inl e, w1) \<Rightarrow> (failed, w1)
      | (Inr encryptedAccessToken, w1) \<Rightarrow>
          (case encrypt_refresh env (gt_refresh_token tokens) w1 of
             (Inl e, w2) \<Rightarrow> (failed, w2)
           | (Inr encryptedRefreshToken, w2) \<Rightarrow>
               (case run_users_update storeTokens_sql
                       [SqlText userId, SqlText encryptedAccessToken, encryptedRefreshToken,
                        timestamp_param (gt_expires_at tokens)]
                       (users w2) of
                  Inl e \<Rightarrow> (failed, w2)
                | Inr table \<Rightarrow> (Inr (), w2\<lparr>users := table\<rparr>))))"

text \<open>
  The statement of \<open>updateUserFromGoogleProfile\<close>, which stores the same three
  values: \<open>name = $1, picture_url = $2, access_token = $3, refresh_token = $4,
  token_expires_at = $5 ... WHERE id = $6\<close>, run with six parameters. The name and the
  picture are what the function reads from the profile.
\<close>

definition updateUser_sql :: users_update where
  "updateUser_sql =
     \<lparr>set_clause = [(name_col, 1), (picture_url_col, 2), (access_token_col, 3),
                    (refresh_token_col, 4), (token_expires_at_col, 5)],
      where_id = 6\<rparr>"

definition updateUserFromGoogleProfile ::
  "env \<Rightarrow> js_string \<Rightarrow> js_string \<Rightarrow> js_string option \<Rightarrow> google_tokens \<Rightarrow> world \<Rightarrow>
   (app_error + user_row option) \<times> world" where
  "updateUserFromGoogleProfile env userId name pictureUrl tokens w =
     (let failed = Inl (InternalServerError (js ''Failed to update user account'')) in
      case encrypt_next env (gt_access_token tokens) w of
        (Inl e, w1) \<Rightarrow> (failed, w1)
      | (Inr encryptedAccessToken, w1) \<Rightarrow>
          (case encrypt_refresh env (gt_refresh_token tokens) w1 of
             (Inl e, w2) \<Rightarrow> (failed, w2)
           | (Inr encryptedRefreshToken, w2) \<Rightarrow>
               (case run_users_update updateUser_sql
                       [SqlText name, text_param pictureUrl, SqlText encryptedAccessToken,
                        encryptedRefreshToken, timestamp_param (gt_expires_at tokens),
                        SqlText userId]
                       (users w2) of
                  Inl e \<Rightarrow> (failed, w2)
                | Inr table \<Rightarrow> (Inr (table userId), w2\<lparr>users := table\<rparr>))))"

definition getStoredTokens :: "env \<Rightarrow> js_string \<Rightarrow> world \<Rightarrow> app_error + stored_tokens option" where
  "getStoredTokens env userId w =
     (let failed = Inl (InternalServerError (js ''Failed to retrieve authentication tokens'')) in
      case users w userId of
        None \<Rightarrow> Inr None
      | Some row \<Rightarrow>
          (case access_token row of
             None \<Rightarrow> Inr None
           | Some a \<Rightarrow>
               if a = [] then Inr None
               else (case decrypt (the_vault env) a of
                       Inl e \<Rightarrow> failed
                     | Inr access \<Rightarrow>
                         (case refresh_token row of
                            None \<Rightarrow>
                              Inr (Some \<lparr>accessToken = access, refreshToken = None,
                                         expiresAt = token_expires_at row\<rparr>)
                          | Some r \<Rightarrow>
                              if r = []
                              then Inr (Some \<lparr>accessToken = access, refreshToken = None,
                                              expiresAt = token_expires_at row\<rparr>)
                              else (case decrypt (the_vault env) r of
                                      Inl e \<Rightarrow> failed
                                    | Inr refresh \<Rightarrow>
                                        Inr (Some \<lparr>accessToken = access,
                                                   refreshToken = Some refresh,
                                                   expiresAt = token_expires_at row\<rparr>))))))"

text \<open>
  \<open>refreshGoogleToken\<close>. Its \<open>catch\<close> lets an \<open>UnauthorizedError\<close> through and turns
  every other error into an \<open>InternalServerError\<close>.
\<close>

fun refresh_rethrow :: "app_error \<Rightarrow> app_error" where
  "refresh_rethrow (UnauthorizedError d) = UnauthorizedError d"
| "refresh_rethrow _ = InternalServerError (js ''Failed to refresh authentication tokens'')"

definition nonempty :: "js_string option \<Rightarrow> js_string option" where
  "nonempty t = (case t of None \<Rightarrow> None | Some x \<Rightarrow> if x = [] then None else Some x)"

definition refreshGoogleToken ::
  "env \<Rightarrow> js_string \<Rightarrow> world \<Rightarrow> (app_error + google_tokens) \<times> world" where
  "refreshGoogleToken env userId w =
     (case getStoredTokens env userId w of
        Inl e \<Rightarrow> (Inl (refresh_rethrow e), w)
      | Inr storedTokens \<Rightarrow>
          (case nonempty (Option.bind storedTokens refreshToken) of
             None \<Rightarrow> (Inl (UnauthorizedError (js ''No refresh token available'')), w)
           | Some stored_refresh \<Rightarrow>
               (let w1 = w\<lparr>requests := requests w + 1\<rparr> in
                case refreshAccessToken env (requests w) stored_refresh of
                  Inl e \<Rightarrow> (Inl (refresh_rethrow (GoogleError e)), w1)
                | Inr credentials \<Rightarrow>
                    (case nonempty (cr_access_token credentials) of
                       None \<Rightarrow> (Inl (UnauthorizedError (js ''Failed to refresh access token'')), w1)
                     | Some access \<Rightarrow>
                         (let newTokens =
                                \<lparr>gt_access_token = access,
                                 gt_refresh_token =
                                   (case nonempty (cr_refresh_token credentials) of
                                      None \<Rightarrow> Some stored_refresh
                                    | Some r \<Rightarrow> Some r),
                                 gt_expires_at =
                                   (case cr_expiry_date credentials of
                                      None \<Rightarrow> None
                                    | Some ms \<Rightarrow> if ms = 0 then None else Some ms),
                                 gt_scope = cr_scope credentials\<rparr>
                          in case storeTokens env userId newTokens w1 of
                               (Inl e, w2) \<Rightarrow> (Inl (refresh_rethrow e), w2)
                             | (Inr u, w2) \<Rightarrow> (Inr newTokens, w2))))))"

text \<open>\<open>ensureValidToken\<close> at the instant \<open>now\<close> (milliseconds), with its 5 minutes.\<close>

definition bufferTime :: int where
  "bufferTime = 5 * 60 * 1000"

definition ensureValidToken ::
  "env \<Rightarrow> int \<Rightarrow> js_string \<Rightarrow> world \<Rightarrow> (app_error + js_string) \<times> world" where
  "ensureValidToken env now userId w =
     (case getStoredTokens env userId w of
        Inl e \<Rightarrow> (Inl e, w)
      | Inr None \<Rightarrow> (Inl (UnauthorizedError (js ''No authentication tokens found'')), w)
      | Inr (Some storedTokens) \<Rightarrow>
          (case expiresAt storedTokens of
             None \<Rightarrow> (Inr (accessToken storedTokens), w)
           | Some expires \<Rightarrow>
               if expires - now < bufferTime
               then (case refreshGoogleToken env userId w of
                       (Inl e, w') \<Rightarrow> (Inl e, w')
                     | (Inr refreshedTokens, w') \<Rightarrow> (Inr (gt_access_token refreshedTokens), w'))
               else (Inr (accessToken storedTokens), w)))"

section \<open>Calendar service: the retry executor\<close>

record retry_config =
  maxRetries :: nat
  baseDelay :: nat
  maxDelay :: nat
  backoffMultiplier :: nat

definition DEFAULT_RETRY_CONFIG :: retry_config where
  "DEFAULT_RETRY_CONFIG =
     \<lparr>maxRetries = 3, baseDelay = 1000, maxDelay = 30000, backoffMultiplier = 2\<rparr>"

definition isRateLimitError :: "google_error \<Rightarrow> bool" where
  "isRateLimitError error =
     (ge_code error = Some (NumCode 429) \<or>
      js_includes (ge_message error) (js ''rateLimitExceeded'') \<or>
      js_includes (ge_message error) (js ''userRateLimitExceeded''))"

definition isQuotaExceededError :: "google_error \<Rightarrow> bool" where
  "isQuotaExceededError error =
     (ge_code error = Some (NumCode 403) \<and>
      (js_includes (ge_message error) (js ''quotaExceeded'') \<or>
       js_includes (ge_message error) (js ''dailyLimitExceeded'')))"

definition isAuthError :: "google_error \<Rightarrow> bool" where
  "isAuthError error =
     (ge_code error = Some (NumCode 401) \<or>
      js_includes (ge_message error) (js ''invalid_grant'') \<or>
      js_includes (ge_message error) (js ''unauthorized''))"

definition isNetworkError :: "google_error \<Rightarrow> bool" where
  "isNetworkError error =
     (ge_code error = Some (StrCode (js ''ECONNRESET'')) \<or>
      ge_code error = Some (StrCode (js ''ENOTFOUND'')) \<or>
      ge_code error = Some (StrCode (js ''ETIMEDOUT'')) \<or>
      js_includes (ge_message error) (js ''network'') \<or>
      js_includes (ge_message error) (js ''timeout''))"

definition count_rateLimitHit :: "world \<Rightarrow> world" where
  "count_rateLimitHit w = w\<lparr>metrics := (metrics w)\<lparr>rateLimitHits := rateLimitHits (metrics w) + 1\<rparr>\<rparr>"

definition count_quotaExceeded :: "world \<Rightarrow> world" where
  "count_quotaExceeded w =
     w\<lparr>metrics := (metrics w)\<lparr>quotaExceededCount := quotaExceededCount (metrics w) + 1\<rparr>\<rparr>"

definition count_authError :: "world \<Rightarrow> world" where
  "count_authError w = w\<lparr>metrics := (metrics w)\<lparr>authErrors := authErrors (metrics w) + 1\<rparr>\<rparr>"

definition count_networkError :: "world \<Rightarrow> world" where
  "count_networkError w = w\<lparr>metrics := (metrics w)\<lparr>networkErrors := networkErrors (metrics w) + 1\<rparr>\<rparr>"

definition count_apiCall :: "world \<Rightarrow> world" where
  "count_apiCall w = w\<lparr>metrics := (metrics w)\<lparr>apiCallsCount := apiCallsCount (metrics w) + 1\<rparr>\<rparr>"

text \<open>
  The loop of \<open>executeWithRetry\<close> from \<open>attempt\<close> on. The operation is asked with the
  number of requests sent so far. A rate-limit or network error goes to the next
  attempt, after a delay when it is not the last one (the delays are not modelled);
  after the last attempt the loop ends and \<open>lastError\<close> is thrown.
\<close>

function retry_loop ::
  "(nat \<Rightarrow> google_error + 'a) \<Rightarrow> retry_config \<Rightarrow> nat \<Rightarrow> app_error \<Rightarrow> world \<Rightarrow>
   (app_error + 'a) \<times> world" where
  "retry_loop operation retryConfig attempt lastError w =
     (if attempt \<le> maxRetries retryConfig then
        (let w1 = w\<lparr>requests := requests w + 1\<rparr> in
         case operation (requests w) of
           Inr result \<Rightarrow> (Inr result, count_apiCall w1)
         | Inl error \<Rightarrow>
             if isRateLimitError error then
               retry_loop operation retryConfig (attempt + 1) (GoogleError error)
                 (count_rateLimitHit w1)
             else if isQuotaExceededError error then
               (Inl (InternalServerError (js ''Google Calendar API quota exceeded'')),
                count_quotaExceeded w1)
             else if isAuthError error then
               (Inl (UnauthorizedError (js ''Google Calendar authentication failed'')),
                count_authError w1)
             else if isNetworkError error then
               retry_loop operation retryConfig (attempt + 1) (GoogleError error)
                 (count_networkError w1)
             else (Inl (GoogleError error), w1))
      else (Inl lastError, w))"
  by pat_completeness auto
termination
  by (relation "measure (\<lambda>(operation, retryConfig, attempt, lastError, w).
                  maxRetries retryConfig + 1 - attempt)") auto

declare retry_loop.simps [simp del]

definition executeWithRetry ::
  "(nat \<Rightarrow> google_error + 'a) \<Rightarrow> retry_config \<Rightarrow> world \<Rightarrow> (app_error + 'a) \<times> world" where
  "executeWithRetry operation retryConfig w =
     retry_loop operation retryConfig 0 (PlainError (js ''Unknown error'')) w"

definition getAuthenticatedCalendar ::
  "env \<Rightarrow> int \<Rightarrow> js_string \<Rightarrow> world \<Rightarrow> (app_error + js_string) \<times> world" where
  "getAuthenticatedCalendar env now userId w =
     (case ensureValidToken env now userId w of
        (Inl e, w') \<Rightarrow>
          (Inl (UnauthorizedError (js ''Failed to authenticate with Google Calendar'')), w')
      | (Inr token, w') \<Rightarrow> (Inr token, w'))"

section \<open>Calendar service: reading events\<close>

datatype js_number = Number int | NaN

text \<open>\<open>a < b\<close> on numbers: false when either is \<open>NaN\<close>.\<close>

fun js_less :: "js_number \<Rightarrow> js_number \<Rightarrow> bool" where
  "js_less (Number a) (Number b) = (a < b)"
| "js_less _ _ = False"

datatype source_filter = SourceIs event_source | SourceAll

text \<open>
  \<open>EventsQueryParams\<close>. A date filter is held as the \<open>Date\<close> that \<open>new Date\<close> makes
  of the string; an absent filter is \<open>None\<close>, and so is an empty date string.
\<close>

record events_query_params =
  qp_page :: "int option"
  qp_limit :: "int option"
  qp_startDate :: "js_date option"
  qp_endDate :: "js_date option"
  qp_status :: "event_status option"
  qp_search :: "js_string option"
  qp_source :: "source_filter option"

record calendar_event_response =
  r_id :: js_string
  r_googleEventId :: "js_string option"
  r_title :: js_string
  r_description :: "js_string option"
  r_startDate :: int
  r_endDate :: int
  r_location :: "js_string option"
  r_attendees :: "event_attendee_input list"
  r_isAllDay :: bool
  r_timezone :: js_string
  r_status :: event_status
  r_source :: event_source
  r_createdAt :: int
  r_updatedAt :: int
  r_lastModified :: int

definition mapDatabaseEventToResponse :: "event_row \<Rightarrow> calendar_event_response" where
  "mapDatabaseEventToResponse dbEvent =
     \<lparr>r_id = ev_id dbEvent, r_googleEventId = google_event_id dbEvent,
      r_title = ev_title dbEvent, r_description = ev_description dbEvent,
      r_startDate = start_date dbEvent, r_endDate = end_date dbEvent,
      r_location = ev_location dbEvent, r_attendees = ev_attendees dbEvent,
      r_isAllDay = is_all_day dbEvent, r_timezone = ev_timezone dbEvent,
      r_status = ev_status dbEvent, r_source = ev_source dbEvent,
      r_createdAt = created_at dbEvent, r_updatedAt = updated_at dbEvent,
      r_lastModified = last_modified dbEvent\<rparr>"

record events_response =
  events :: "calendar_event_response list"
  pg_page :: int
  pg_limit :: int
  pg_total :: js_number
  pg_hasNext :: bool
  pg_hasPrev :: bool

subsection \<open>The text of the query and the two replacements\<close>

text \<open>Decimal digits of a placeholder number.\<close>

definition digit_char :: "nat \<Rightarrow> char" where
  "digit_char n = ''0123456789'' ! n"

function decimal :: "nat \<Rightarrow> string" where
  "decimal n =
     (if n < 10 then [digit_char n] else decimal (n div 10) @ [digit_char (n mod 10)])"
  by pat_completeness auto
termination
  by (relation "measure id") auto

definition line_feed :: char where
  "line_feed = CHR 0x0A"

text \<open>The template literal that starts the query, line by line.\<close>

definition query_head :: string where
  "query_head =
     [line_feed] @
     ''        SELECT '' @ [line_feed] @
     ''          id, google_event_id, title, description, start_date, end_date,'' @ [line_feed] @
     ''          location, attendees, is_all_day, timezone, status, source,'' @ [line_feed] @
     ''          created_at, updated_at, last_modified'' @ [line_feed] @
     ''        FROM calendar_events '' @ [line_feed] @
     ''        WHERE user_id = $1'' @ [line_feed] @
     ''      ''"

text \<open>
  The text \<open>getEvents\<close> appends for the filters that are present, with the running
  \<open>paramIndex\<close>, and for the order and the page.
\<close>

definition source_filtered :: "source_filter option \<Rightarrow> event_source option" where
  "source_filtered s = (case s of Some (SourceIs x) \<Rightarrow> Some x | _ \<Rightarrow> None)"

definition build_query :: "events_query_params \<Rightarrow> string" where
  "build_query params =
     (let q0 = query_head; i0 = (2::nat);
          (q1, i1) = (case qp_startDate params of
                        Some d \<Rightarrow> (q0 @ '' AND start_date >= $'' @ decimal i0, i0 + 1)
                      | None \<Rightarrow> (q0, i0));
          (q2, i2) = (case qp_endDate params of
                        Some d \<Rightarrow> (q1 @ '' AND end_date <= $'' @ decimal i1, i1 + 1)
                      | None \<Rightarrow> (q1, i1));
          (q3, i3) = (case qp_status params of
                        Some st \<Rightarrow> (q2 @ '' AND status = $'' @ decimal i2, i2 + 1)
                      | None \<Rightarrow> (q2, i2));
          (q4, i4) = (case source_filtered (qp_source params) of
                        Some src \<Rightarrow> (q3 @ '' AND source = $'' @ decimal i3, i3 + 1)
                      | None \<Rightarrow> (q3, i3));
          (q5, i5) = (case nonempty (qp_search params) of
                        Some x \<Rightarrow>
                          (q4 @ '' AND (title ILIKE $'' @ decimal i4 @
                                 '' OR description ILIKE $'' @ decimal i4 @ '')'', i4 + 1)
                      | None \<Rightarrow> (q4, i4))
      in q5 @ '' ORDER BY start_date ASC LIMIT $'' @ decimal i5 @ '' OFFSET $'' @
         decimal (i5 + 1))"

text \<open>
  The regular expressions of the two \<open>replace\<close> calls. The dot of a JavaScript
  regular expression matches no line terminator, so a match lies within one line.
  \<open>after_first p s\<close> is what follows the first \<open>p\<close> in \<open>s\<close>.
\<close>

fun regex_lines :: "string \<Rightarrow> string list" where
  "regex_lines [] = [[]]"
| "regex_lines (c # cs) =
     (if c = CHR 0x0A \<or> c = CHR 0x0D then [] # regex_lines cs
      else (case regex_lines cs of
              [] \<Rightarrow> [[c]]
            | l # ls \<Rightarrow> (c # l) # ls))"

fun after_first :: "string \<Rightarrow> string \<Rightarrow> string option" where
  "after_first p [] = (if p = [] then Some [] else None)"
| "after_first p (c # cs) =
     (if prefix p (c # cs) then Some (drop (length p) (c # cs)) else after_first p cs)"

text \<open>\<^verbatim>\<open>/SELECT .* FROM/\<close>\<close>

definition matches_select_from :: "string \<Rightarrow> bool" where
  "matches_select_from q =
     list_ex (\<lambda>l. case after_first ''SELECT '' l of
                     None \<Rightarrow> False
                   | Some r \<Rightarrow> after_first '' FROM'' r \<noteq> None)
             (regex_lines q)"

text \<open>\<^verbatim>\<open>/ORDER BY .* LIMIT .* OFFSET .*/\<close>\<close>

definition matches_order_limit_offset :: "string \<Rightarrow> bool" where
  "matches_order_limit_offset q =
     list_ex (\<lambda>l. case after_first ''ORDER BY '' l of
                     None \<Rightarrow> False
                   | Some r \<Rightarrow>
                       (case after_first '' LIMIT '' r of
                          None \<Rightarrow> False
                        | Some r2 \<Rightarrow> after_first '' OFFSET '' r2 \<noteq> None))
             (regex_lines q)"

subsection \<open>Running the query\<close>

text \<open>
  The \<open>WHERE\<close> clause on a row. A comparison with \<open>NULL\<close> is not true, so a row
  without description matches a search by its title only.
\<close>

definition matches_filters :: "env \<Rightarrow> js_string \<Rightarrow> events_query_params \<Rightarrow> event_row \<Rightarrow> bool" where
  "matches_filters env userId params row =
     (ev_user_id row = userId \<and>
      (case qp_startDate params of
         Some (Date t) \<Rightarrow> start_date row \<ge> t | _ \<Rightarrow> True) \<and>
      (case qp_endDate params of
         Some (Date t) \<Rightarrow> end_date row \<le> t | _ \<Rightarrow> True) \<and>
      (case qp_status params of
         Some st \<Rightarrow> ev_status row = st | None \<Rightarrow> True) \<and>
      (case source_filtered (qp_source params) of
         Some src \<Rightarrow> ev_source row = src | None \<Rightarrow> True) \<and>
      (case nonempty (qp_search params) of
         Some x \<Rightarrow>
           ilike env (ev_title row) (js ''%'' @ x @ js ''%'') \<or>
           (case ev_description row of
              None \<Rightarrow> False
            | Some d \<Rightarrow> ilike env d (js ''%'' @ x @ js ''%''))
       | None \<Rightarrow> True))"

definition matching_events :: "env \<Rightarrow> js_string \<Rightarrow> events_query_params \<Rightarrow> world \<Rightarrow> event_row list" where
  "matching_events env userId params w =
     filter (matches_filters env userId params) (calendar_events w)"

text \<open>
  \<open>getEvents\<close>. The database refuses an Invalid Date as a timestamp and a negative
  \<open>LIMIT\<close> or \<open>OFFSET\<close>; the \<open>catch\<close> turns every error into the same
  \<open>InternalServerError\<close>. The count query is the query after the two replacements,
  run with the parameters but the last two: if the second replacement did not remove
  the \<open>LIMIT\<close> and \<open>OFFSET\<close> placeholders, the bind would be refused; if the first
  did not put \<open>COUNT(*)\<close> in place, the rows have no \<open>count\<close> column and
  \<open>parseInt(undefined, 10)\<close> is \<open>NaN\<close>. Rows of equal start keep the table's order.
\<close>

definition page_of :: "events_query_params \<Rightarrow> int" where
  "page_of params = (case qp_page params of None \<Rightarrow> 1 | Some p \<Rightarrow> p)"

definition limit_of :: "events_query_params \<Rightarrow> int" where
  "limit_of params = (case qp_limit params of None \<Rightarrow> 50 | Some l \<Rightarrow> l)"

definition offset_of :: "events_query_params \<Rightarrow> int" where
  "offset_of params = (page_of params - 1) * limit_of params"

definition getEvents :: "env \<Rightarrow> js_string \<Rightarrow> events_query_params \<Rightarrow> world \<Rightarrow> app_error + events_response" where
  "getEvents env userId params w =
     (let failed = Inl (InternalServerError (js ''Failed to retrieve events''));
          page = page_of params;
          limit = limit_of params;
          offset = offset_of params;
          query = build_query params;
          matching = matching_events env userId params w
      in if qp_startDate params = Some InvalidDate \<or> qp_endDate params = Some InvalidDate
         then failed
         else if limit < 0 \<or> offset < 0 then failed
         else if \<not> matches_order_limit_offset query then failed
         else
           (let rows = take (nat limit) (drop (nat offset) (sort_key start_date matching));
                total =
                  (if matches_select_from query then Number (int (length matching))
                   else if matching = [] then Number 0
                   else NaN)
            in Inr \<lparr>events = map mapDatabaseEventToResponse rows,
                     pg_page = page, pg_limit = limit, pg_total = total,
                     pg_hasNext = js_less (Number (offset + limit)) total,
                     pg_hasPrev = (page > 1)\<rparr>))"

definition no_terminator :: "char \<Rightarrow> bool" where
  "no_terminator c = (c \<noteq> CHR 0x0A \<and> c \<noteq> CHR 0x0D)"

section \<open>Calendar service: writing events\<close>

text \<open>
  The values of an \<open>INSERT INTO calendar_events\<close> or of the \<open>UPDATE\<close> of the sync,
  as the statements bind them; \<open>undefined\<close> is \<open>NULL\<close>.
\<close>

record event_values =
  v_title :: "js_string option"
  v_description :: "js_string option"
  v_start_date :: "js_date option"
  v_end_date :: "js_date option"
  v_location :: "js_string option"
  v_attendees :: "event_attendee_input list"
  v_is_all_day :: bool
  v_timezone :: js_string
  v_status :: event_status

text \<open>
  What the table demands of the values: \<open>title\<close>, \<open>start_date\<close> and \<open>end_date\<close> are
  \<open>NOT NULL\<close>, a timestamp is a valid date, and \<open>CHECK (end_date >= start_date)\<close>.
\<close>

definition check_event_values :: "event_values \<Rightarrow> app_error + js_string \<times> int \<times> int" where
  "check_event_values v =
     (case (v_title v, v_start_date v, v_end_date v) of
        (Some t, Some (Date s), Some (Date e)) \<Rightarrow>
          if e \<ge> s then Inr (t, s, e)
          else Inl (DbError (js ''violates check constraint valid_date_range''))
      | _ \<Rightarrow> Inl (DbError (js ''null or invalid value in a not-null column'')))"

text \<open>
  The \<open>INSERT\<close> against the rows \<open>table\<close> the statement sees, with source
  \<open>google\<close>. The owner must be a row of \<open>users\<close> and \<open>(user_id, google_event_id)\<close>
  is unique. The identifier is the next draw of \<open>uuid_generate_v4()\<close>; the three
  timestamps default to the current instant.
\<close>

definition insert_event ::
  "env \<Rightarrow> int \<Rightarrow> world \<Rightarrow> event_row list \<Rightarrow> js_string \<Rightarrow> js_string option \<Rightarrow> event_values \<Rightarrow>
   app_error + event_row" where
  "insert_event env now w table userId googleEventId v =
     (case check_event_values v of
        Inl e \<Rightarrow> Inl e
      | Inr (t, s, e) \<Rightarrow>
          if users w userId = None
          then Inl (DbError (js ''violates foreign key constraint''))
          else if googleEventId \<noteq> None \<and>
                  list_ex (\<lambda>r. ev_user_id r = userId \<and> google_event_id r = googleEventId) table
          then Inl (DbError (js ''violates unique constraint valid_google_event_id''))
          else Inr \<lparr>ev_id = uuid_generate_v4 env (draws w), ev_user_id = userId,
                    google_event_id = googleEventId, ev_title = t,
                    ev_description = v_description v, start_date = s, end_date = e,
                    ev_location = v_location v, ev_attendees = v_attendees v,
                    ev_status = v_status v, ev_source = google,
                    is_all_day = v_is_all_day v, ev_timezone = v_timezone v,
                    created_at = now, updated_at = now, last_modified = now\<rparr>)"

text \<open>
  A transaction on a client of the pool: the rows inserted since \<open>BEGIN\<close>.
  \<open>COMMIT\<close> adds them to the table; \<open>ROLLBACK\<close> drops them.
\<close>

record transaction =
  tx_inserted :: "event_row list"

definition begin_transaction :: transaction where
  "begin_transaction = \<lparr>tx_inserted = []\<rparr>"

definition commit :: "transaction \<Rightarrow> world \<Rightarrow> world" where
  "commit tx w = w\<lparr>calendar_events := calendar_events w @ tx_inserted tx\<rparr>"

definition rollback :: "transaction \<Rightarrow> world \<Rightarrow> world" where
  "rollback tx w = w"

text \<open>\<open>x || d\<close> for an optional string and for an optional boolean.\<close>

definition or_default :: "js_string option \<Rightarrow> js_string \<Rightarrow> js_string" where
  "or_default x d = (case nonempty x of None \<Rightarrow> d | Some y \<Rightarrow> y)"

definition or_false :: "bool option \<Rightarrow> bool" where
  "or_false b = (case b of None \<Rightarrow> False | Some x \<Rightarrow> x)"

definition day_ms :: int where
  "day_ms = 24 * 60 * 60 * 1000"

text \<open>
  \<open>mapInputToGoogleEvent\<close>. \<open>toISOString\<close> throws a \<open>RangeError\<close> on an Invalid
  Date and reading it off a missing date is a \<open>TypeError\<close>. The date of an all-day
  event is the day of the instant, in UTC.
\<close>

definition google_time :: "bool \<Rightarrow> js_date option \<Rightarrow> js_string option \<Rightarrow> app_error + google_event_time" where
  "google_time allDay d tz =
     (case d of
        None \<Rightarrow> Inl (TypeError (js ''Cannot read properties of undefined''))
      | Some InvalidDate \<Rightarrow> Inl (RangeError (js ''Invalid time value''))
      | Some (Date t) \<Rightarrow>
          if allDay
          then Inr \<lparr>gt_dateTime = None, gt_date = Some (Date (t - t mod day_ms)),
                    gt_timeZone = None\<rparr>
          else Inr \<lparr>gt_dateTime = Some (Date t), gt_date = None,
                    gt_timeZone = Some (or_default tz (js ''UTC''))\<rparr>)"

definition mapInputToGoogleEvent :: "calendar_event_input \<Rightarrow> app_error + google_event" where
  "mapInputToGoogleEvent eventData =
     (let allDay = or_false (isAllDay eventData) in
      case google_time allDay (startDate eventData) (timezone eventData) of
        Inl e \<Rightarrow> Inl e
      | Inr start \<Rightarrow>
          (case google_time allDay (endDate eventData) (timezone eventData) of
             Inl e \<Rightarrow> Inl e
           | Inr end \<Rightarrow>
               Inr \<lparr>g_id = Some [], g_summary = title eventData,
                     g_description = description eventData,
                     g_start = Some start, g_end = Some end,
                     g_location = location eventData,
                     g_attendees =
                       map_option
                         (map (\<lambda>a. \<lparr>ga_email = email a, ga_displayName = displayName a,
                                     ga_optional = Some (or_false (optional a))\<rparr>))
                         (attendees eventData),
                     g_status =
                       Some (case status eventData of None \<Rightarrow> confirmed | Some st \<Rightarrow> st),
                     g_updated = InvalidDate\<rparr>))"

text \<open>
  \<open>createEvent\<close>: \<open>BEGIN\<close>, the validation, the token, the upstream insert through
  the retry executor, the local \<open>INSERT\<close> and \<open>COMMIT\<close>; every throw goes through
  \<open>ROLLBACK\<close> and is thrown again.
\<close>

definition createEvent ::
  "env \<Rightarrow> int \<Rightarrow> js_string \<Rightarrow> calendar_event_input \<Rightarrow> world \<Rightarrow>
   (app_error + calendar_event_response) \<times> world" where
  "createEvent env now userId eventData w =
     (let tx = begin_transaction in
      case validateEventInput eventData of
        Inl e \<Rightarrow> (Inl e, rollback tx w)
      | Inr u \<Rightarrow>
          (case getAuthenticatedCalendar env now userId w of
             (Inl e, w1) \<Rightarrow> (Inl e, rollback tx w1)
           | (Inr calendar, w1) \<Rightarrow>
               (case mapInputToGoogleEvent eventData of
                  Inl e \<Rightarrow> (Inl e, rollback tx w1)
                | Inr googleEvent \<Rightarrow>
                    (case executeWithRetry (\<lambda>n. events_insert env n googleEvent)
                            DEFAULT_RETRY_CONFIG w1 of
                       (Inl e, w2) \<Rightarrow> (Inl e, rollback tx w2)
                     | (Inr response_id, w2) \<Rightarrow>
                         (case nonempty response_id of
                            None \<Rightarrow>
                              (Inl (InternalServerError
                                      (js ''Failed to create event in Google Calendar'')),
                               rollback tx w2)
                          | Some gid \<Rightarrow>
                              (case insert_event env now w2
                                      (calendar_events w2 @ tx_inserted tx) userId (Some gid)
                                      \<lparr>v_title = title eventData,
                                       v_description = description eventData,
                                       v_start_date = startDate eventData,
                                       v_end_date = endDate eventData,
                                       v_location = location eventData,
                                       v_attendees =
                                         (case attendees eventData of
                                            None \<Rightarrow> [] | Some as \<Rightarrow> as),
                                       v_is_all_day = or_false (isAllDay eventData),
                                       v_timezone = or_default (timezone eventData) (js ''UTC''),
                                       v_status =
                                         (case status eventData of
                                            None \<Rightarrow> confirmed | Some st \<Rightarrow> st)\<rparr> of
                                 Inl e \<Rightarrow> (Inl e, rollback tx w2)
                               | Inr row \<Rightarrow>
                                   (Inr (mapDatabaseEventToResponse row),
                                    commit (tx\<lparr>tx_inserted := tx_inserted tx @ [row]\<rparr>)
                                      (w2\<lparr>draws := draws w2 + 1\<rparr>))))))))"

section \<open>Calendar service: synchronization\<close>

record sync_options =
  so_fullSync :: "bool option"
  so_maxResults :: "int option"
  so_timeMin :: "int option"
  so_timeMax :: "int option"

datatype calendar_error_type =
  RATE_LIMIT | QUOTA_EXCEEDED | AUTH_ERROR | NETWORK_ERROR | VALIDATION_ERROR | SYNC_ERROR

record calendar_error =
  ce_type :: calendar_error_type
  ce_message :: js_string

record sync_result =
  success :: bool
  eventsProcessed :: nat
  eventsCreated :: nat
  eventsUpdated :: nat
  eventsDeleted :: nat
  nextSyncToken :: "js_string option"
  errors :: "calendar_error list"

definition fresh_result :: "bool \<Rightarrow> sync_result" where
  "fresh_result ok =
     \<lparr>success = ok, eventsProcessed = 0, eventsCreated = 0, eventsUpdated = 0,
      eventsDeleted = 0, nextSyncToken = None, errors = []\<rparr>"

text \<open>
  \<open>mapGoogleEventToInput\<close>. Reading \<open>start.date\<close> or \<open>end.dateTime\<close> off an event
  without \<open>start\<close> or \<open>end\<close> is a \<open>TypeError\<close>; \<open>new Date(undefined)\<close> is an
  Invalid Date.
\<close>

definition google_instant :: "google_event_time \<Rightarrow> js_date" where
  "google_instant t =
     (case gt_dateTime t of
        Some d \<Rightarrow> d
      | None \<Rightarrow> (case gt_date t of Some d \<Rightarrow> d | None \<Rightarrow> InvalidDate))"

definition mapGoogleEventToInput :: "google_event \<Rightarrow> app_error + calendar_event_input" where
  "mapGoogleEventToInput googleEvent =
     (case (g_start googleEvent, g_end googleEvent) of
        (Some start, Some end) \<Rightarrow>
          Inr \<lparr>title = Some (or_default (g_summary googleEvent) (js ''Untitled Event'')),
                description = g_description googleEvent,
                startDate = Some (google_instant start),
                endDate = Some (google_instant end),
                location = g_location googleEvent,
                attendees =
                  Some (case g_attendees googleEvent of
                          None \<Rightarrow> []
                        | Some as \<Rightarrow>
                            map (\<lambda>a. \<lparr>email = ga_email a, displayName = ga_displayName a,
                                        optional = Some (or_false (ga_optional a))\<rparr>) as),
                isAllDay = Some (gt_date start \<noteq> None),
                timezone = Some (or_default (gt_timeZone start) (js ''UTC'')),
                status =
                  Some (case g_status googleEvent of None \<Rightarrow> confirmed | Some st \<Rightarrow> st)\<rparr>
      | _ \<Rightarrow> Inl (TypeError (js ''Cannot read properties of undefined'')))"

definition values_of_input :: "calendar_event_input \<Rightarrow> event_values" where
  "values_of_input eventData =
     \<lparr>v_title = title eventData, v_description = description eventData,
      v_start_date = startDate eventData, v_end_date = endDate eventData,
      v_location = location eventData,
      v_attendees = (case attendees eventData of None \<Rightarrow> [] | Some as \<Rightarrow> as),
      v_is_all_day = or_false (isAllDay eventData),
      v_timezone = (case timezone eventData of None \<Rightarrow> [] | Some tz \<Rightarrow> tz),
      v_status = (case status eventData of None \<Rightarrow> confirmed | Some st \<Rightarrow> st)\<rparr>"

definition createEventFromGoogle ::
  "env \<Rightarrow> int \<Rightarrow> js_string \<Rightarrow> js_string \<Rightarrow> google_event \<Rightarrow> world \<Rightarrow> (app_error + unit) \<times> world" where
  "createEventFromGoogle env now userId gid googleEvent w =
     (case mapGoogleEventToInput googleEvent of
        Inl e \<Rightarrow> (Inl e, w)
      | Inr eventData \<Rightarrow>
          (case insert_event env now w (calendar_events w) userId (Some gid)
                  (values_of_input eventData) of
             Inl e \<Rightarrow> (Inl e, w)
           | Inr row \<Rightarrow>
               (Inr (), w\<lparr>calendar_events := calendar_events w @ [row],
                          draws := draws w + 1\<rparr>)))"

text \<open>The \<open>UPDATE ... WHERE id = $10 AND user_id = $11\<close> of the sync, on one row.\<close>

definition update_row :: "int \<Rightarrow> js_string \<times> int \<times> int \<Rightarrow> event_values \<Rightarrow> event_row \<Rightarrow> event_row" where
  "update_row now checked v r =
     (case checked of
        (t, s, e) \<Rightarrow>
          r\<lparr>ev_title := t, ev_description := v_description v, start_date := s, end_date := e,
            ev_location := v_location v, ev_attendees := v_attendees v,
            is_all_day := v_is_all_day v, ev_timezone := v_timezone v,
            ev_status := v_status v, updated_at := now, last_modified := now\<rparr>)"

definition updateEventFromGoogle ::
  "int \<Rightarrow> js_string \<Rightarrow> js_string \<Rightarrow> google_event \<Rightarrow> world \<Rightarrow> (app_error + unit) \<times> world" where
  "updateEventFromGoogle now userId eventId googleEvent w =
     (case mapGoogleEventToInput googleEvent of
        Inl e \<Rightarrow> (Inl e, w)
      | Inr eventData \<Rightarrow>
          (if list_ex (\<lambda>r. ev_id r = eventId \<and> ev_user_id r = userId) (calendar_events w)
           then (case check_event_values (values_of_input eventData) of
                   Inl e \<Rightarrow> (Inl e, w)
                 | Inr checked \<Rightarrow>
                     (Inr (),
                      w\<lparr>calendar_events :=
                          map (\<lambda>r. if ev_id r = eventId \<and> ev_user_id r = userId
                                    then update_row now checked (values_of_input eventData) r
                                    else r)
                              (calendar_events w)\<rparr>))
           else (Inr (), w)))"

definition handleDeletedEvent :: "js_string \<Rightarrow> js_string \<Rightarrow> world \<Rightarrow> world" where
  "handleDeletedEvent userId googleEventId w =
     w\<lparr>calendar_events :=
         filter (\<lambda>r. \<not> (ev_user_id r = userId \<and> google_event_id r = Some googleEventId))
                (calendar_events w)\<rparr>"

text \<open>
  \<open>processGoogleEvent\<close>: the counters of \<open>result\<close> are changed in place, after the
  statement that may throw.
\<close>

definition processGoogleEvent ::
  "env \<Rightarrow> int \<Rightarrow> js_string \<Rightarrow> google_event \<Rightarrow> sync_result \<Rightarrow> world \<Rightarrow>
   (app_error + sync_result) \<times> world" where
  "processGoogleEvent env now userId googleEvent result w =
     (case nonempty (g_id googleEvent) of
        None \<Rightarrow> (Inr result, w)
      | Some gid \<Rightarrow>
          if g_status googleEvent = Some cancelled
          then (Inr (result\<lparr>eventsDeleted := eventsDeleted result + 1\<rparr>),
                handleDeletedEvent userId gid w)
          else (case find (\<lambda>r. ev_user_id r = userId \<and> google_event_id r = Some gid)
                          (calendar_events w) of
                  None \<Rightarrow>
                    (case createEventFromGoogle env now userId gid googleEvent w of
                       (Inl e, w') \<Rightarrow> (Inl e, w')
                     | (Inr u, w') \<Rightarrow>
                         (Inr (result\<lparr>eventsCreated := eventsCreated result + 1\<rparr>), w'))
                | Some existing \<Rightarrow>
                    if date_gt (g_updated googleEvent) (Date (last_modified existing))
                    then (case updateEventFromGoogle now userId (ev_id existing) googleEvent w of
                            (Inl e, w') \<Rightarrow> (Inl e, w')
                          | (Inr u, w') \<Rightarrow>
                              (Inr (result\<lparr>eventsUpdated := eventsUpdated result + 1\<rparr>), w'))
                    else (Inr result, w)))"

text \<open>The loop over the items of one page: an item that throws is recorded and skipped.\<close>

definition item_error :: "google_event \<Rightarrow> app_error \<Rightarrow> calendar_error" where
  "item_error googleEvent e =
     \<lparr>ce_type = SYNC_ERROR,
      ce_message = js ''Failed to process event '' @
                   (case g_id googleEvent of None \<Rightarrow> js ''undefined'' | Some i \<Rightarrow> i) @
                   js '': '' @ message e\<rparr>"

fun process_items ::
  "env \<Rightarrow> int \<Rightarrow> js_string \<Rightarrow> google_event list \<Rightarrow> sync_result \<Rightarrow> world \<Rightarrow> sync_result \<times> world" where
  "process_items env now userId [] result w = (result, w)"
| "process_items env now userId (googleEvent # rest) result w =
     (case processGoogleEvent env now userId googleEvent result w of
        (Inr r, w') \<Rightarrow>
          process_items env now userId rest (r\<lparr>eventsProcessed := eventsProcessed r + 1\<rparr>) w'
      | (Inl e, w') \<Rightarrow>
          process_items env now userId rest
            (result\<lparr>errors := errors result @ [item_error googleEvent e]\<rparr>) w')"

definition process_page ::
  "env \<Rightarrow> int \<Rightarrow> js_string \<Rightarrow> list_response \<Rightarrow> sync_result \<Rightarrow> world \<Rightarrow> sync_result \<times> world" where
  "process_page env now userId response result w =
     (case (case rs_items response of
              None \<Rightarrow> (result, w)
            | Some items \<Rightarrow> process_items env now userId items result w) of
        (r, w') \<Rightarrow> (r\<lparr>nextSyncToken := nonempty (rs_nextSyncToken response)\<rparr>, w'))"

definition year_ms :: int where
  "year_ms = 365 * 24 * 60 * 60 * 1000"

definition maxResults_or_2500 :: "sync_options \<Rightarrow> int" where
  "maxResults_or_2500 options =
     (case so_maxResults options of None \<Rightarrow> 2500 | Some m \<Rightarrow> if m = 0 then 2500 else m)"

definition full_request :: "int \<Rightarrow> sync_options \<Rightarrow> js_string option \<Rightarrow> list_request" where
  "full_request now options pageToken =
     \<lparr>rq_timeMin = Some (case so_timeMin options of None \<Rightarrow> now - year_ms | Some t \<Rightarrow> t),
      rq_timeMax = Some (case so_timeMax options of None \<Rightarrow> now + year_ms | Some t \<Rightarrow> t),
      rq_maxResults = min (maxResults_or_2500 options) 2500,
      rq_pageToken = pageToken, rq_syncToken = None,
      rq_singleEvents = True, rq_orderByStartTime = True\<rparr>"

definition incremental_request :: "sync_options \<Rightarrow> js_string \<Rightarrow> js_string option \<Rightarrow> list_request" where
  "incremental_request options syncToken pageToken =
     \<lparr>rq_timeMin = None, rq_timeMax = None,
      rq_maxResults = maxResults_or_2500 options,
      rq_pageToken = pageToken,
      rq_syncToken = (case pageToken of None \<Rightarrow> Some syncToken | Some t \<Rightarrow> None),
      rq_singleEvents = False, rq_orderByStartTime = False\<rparr>"

text \<open>
  The \<open>do ... while (pageToken)\<close> loop of both syncs, for a request that depends on the
  page token. The provider decides how many pages there are, so the loop has a bound:
  \<open>None\<close> when the bound is reached. An error thrown by the retry executor ends the
  loop with the result as it stands.
\<close>

fun sync_pages ::
  "nat \<Rightarrow> env \<Rightarrow> int \<Rightarrow> js_string \<Rightarrow> (js_string option \<Rightarrow> list_request) \<Rightarrow> js_string option \<Rightarrow>
   sync_result \<Rightarrow> world \<Rightarrow> (app_error option \<times> sync_result \<times> world) option" where
  "sync_pages 0 env now userId request pageToken result w = None"
| "sync_pages (Suc bound) env now userId request pageToken result w =
     (case executeWithRetry (\<lambda>n. events_list env n (request pageToken))
             DEFAULT_RETRY_CONFIG w of
        (Inl e, w1) \<Rightarrow> Some (Some e, result, w1)
      | (Inr response, w1) \<Rightarrow>
          (case process_page env now userId response result w1 of
             (r, w2) \<Rightarrow>
               (case nonempty (rs_nextPageToken response) of
                  None \<Rightarrow> Some (None, r, w2)
                | Some next \<Rightarrow> sync_pages bound env now userId request (Some next) r w2)))"

definition sync_failure :: "sync_result \<Rightarrow> app_error \<Rightarrow> sync_result" where
  "sync_failure result e =
     result\<lparr>success := False,
            errors := errors result @ [\<lparr>ce_type = SYNC_ERROR, ce_message = message e\<rparr>]\<rparr>"

definition performFullSync ::
  "nat \<Rightarrow> env \<Rightarrow> int \<Rightarrow> js_string \<Rightarrow> sync_options \<Rightarrow> world \<Rightarrow> (sync_result \<times> world) option" where
  "performFullSync bound env now userId options w =
     (case sync_pages bound env now userId (full_request now options) None
             (fresh_result True) w of
        None \<Rightarrow> None
      | Some (None, result, w') \<Rightarrow> Some (result, w')
      | Some (Some e, result, w') \<Rightarrow> Some (sync_failure result e, w'))"

text \<open>The test of the \<open>catch\<close> of \<open>performIncrementalSync\<close> for a stale sync token.\<close>

definition sync_token_invalid :: "app_error \<Rightarrow> bool" where
  "sync_token_invalid e =
     (code e = Some (NumCode 410) \<or>
      js_includes (message e) (js ''Sync token is no longer valid''))"

definition performIncrementalSync ::
  "nat \<Rightarrow> env \<Rightarrow> int \<Rightarrow> js_string \<Rightarrow> js_string \<Rightarrow> sync_options \<Rightarrow> world \<Rightarrow>
   (sync_result \<times> world) option" where
  "performIncrementalSync bound env now userId syncToken options w =
     (case sync_pages bound env now userId (incremental_request options syncToken) None
             (fresh_result True) w of
        None \<Rightarrow> None
      | Some (None, result, w') \<Rightarrow> Some (result, w')
      | Some (Some e, result, w') \<Rightarrow>
          if sync_token_invalid e
          then performFullSync bound env now userId (options\<lparr>so_fullSync := Some True\<rparr>) w'
          else Some (sync_failure result e, w'))"

text \<open>
  \<open>getSyncState\<close>: the row of the user, or an object with the token, the time and
  the flag of a user never synchronized.
\<close>

definition getSyncState :: "js_string \<Rightarrow> world \<Rightarrow> sync_state_row" where
  "getSyncState userId w =
     (case sync_state w userId of
        Some row \<Rightarrow> row
      | None \<Rightarrow>
          \<lparr>next_sync_token = None, last_sync_time = None, full_sync_completed = Some False,
           sync_in_progress = None, sync_error = None, sync_error_count = None\<rparr>)"

text \<open>
  A text parameter of a statement. The driver sends a string as UTF-8, in which an
  unpaired surrogate is U+FFFD; the server refuses a text with a zero character; the
  column gives the text back decoded. \<open>null\<close> and \<open>undefined\<close> are \<open>NULL\<close>.
\<close>

definition bind_text :: "js_string option \<Rightarrow> app_error + js_string option" where
  "bind_text p =
     (case p of
        None \<Rightarrow> Inr None
      | Some s \<Rightarrow>
          if (0 :: code_unit) \<in> set s
          then Inl (DbError (js ''invalid byte sequence for encoding UTF8: 0x00''))
          else Inr (Some (utf8_decode (utf8_encode s))))"

text \<open>
  Assignment to a column \<open>VARCHAR(n)\<close>, as \<open>next_sync_token VARCHAR(500)\<close> of
  \<open>sync_state\<close>. The length is counted in characters, a surrogate pair being one.
  A longer text is refused, unless the characters in excess are all spaces: then it is
  cut to \<open>n\<close> characters. \<open>split_chars n\<close> cuts a text after \<open>n\<close> characters.
\<close>

fun split_chars :: "nat \<Rightarrow> js_string \<Rightarrow> js_string \<times> js_string" where
  "split_chars 0 s = ([], s)"
| "split_chars (Suc n) [] = ([], [])"
| "split_chars (Suc n) [u] = ([u], [])"
| "split_chars (Suc n) (h # l # s) =
     (if high_surrogate (unat h) \<and> low_surrogate (unat l)
      then (case split_chars n s of (kept, excess) \<Rightarrow> (h # l # kept, excess))
      else (case split_chars n (l # s) of (kept, excess) \<Rightarrow> (h # kept, excess)))"

definition space_unit :: code_unit where "space_unit = 32"

definition varchar :: "nat \<Rightarrow> js_string option \<Rightarrow> app_error + js_string option" where
  "varchar n p =
     (case p of
        None \<Rightarrow> Inr None
      | Some s \<Rightarrow>
          (case split_chars n s of
             (kept, excess) \<Rightarrow>
               if list_all (\<lambda>u. u = space_unit) excess then Inr (Some kept)
               else Inl (DbError (js ''value too long for type character varying('' @
                                  js (decimal n) @ js '')''))))"

text \<open>
  \<open>updateSyncState\<close>: the \<open>INSERT ... ON CONFLICT (user_id) DO UPDATE\<close> with the
  parameters \<open>[userId, nextSyncToken, new Date(), success, error, error ? 1 : 0]\<close>.
  The two texts are bound first, then the row to insert is formed, where the sync token
  must fit its column, also when the row of the user exists and is updated. The
  inserted row takes the default of \<open>sync_in_progress\<close>; its owner must be a row of
  \<open>users\<close>. A statement that fails writes nothing.
\<close>

definition updateSyncState ::
  "int \<Rightarrow> js_string \<Rightarrow> js_string option \<Rightarrow> bool \<Rightarrow> js_string option \<Rightarrow> world \<Rightarrow>
   (app_error + unit) \<times> world" where
  "updateSyncState now userId next_token ok error w =
     (case bind_text next_token of
        Inl e \<Rightarrow> (Inl e, w)
      | Inr bound_token \<Rightarrow>
     (case bind_text error of
        Inl e \<Rightarrow> (Inl e, w)
      | Inr bound_error \<Rightarrow>
     (case varchar 500 bound_token of
        Inl e \<Rightarrow> (Inl e, w)
      | Inr token \<Rightarrow>
     (case sync_state w userId of
        None \<Rightarrow>
          if users w userId = None
          then (Inl (DbError (js ''violates foreign key constraint'')), w)
          else (Inr (),
                w\<lparr>sync_state := (sync_state w)(userId \<mapsto>
                     \<lparr>next_sync_token = token, last_sync_time = Some now,
                      full_sync_completed = Some ok, sync_in_progress = Some False,
                      sync_error = bound_error,
                      sync_error_count = Some (if nonempty error = None then 0 else 1)\<rparr>)\<rparr>)
      | Some row \<Rightarrow>
          (Inr (),
           w\<lparr>sync_state := (sync_state w)(userId \<mapsto>
                row\<lparr>next_sync_token := token,
                    last_sync_time := (if ok then Some now else last_sync_time row),
                    full_sync_completed := (if ok then Some True else full_sync_completed row),
                    sync_error := bound_error,
                    sync_error_count :=
                      (if ok then Some 0
                       else Some ((case sync_error_count row of None \<Rightarrow> 0 | Some n \<Rightarrow> n) + 1))\<rparr>)\<rparr>)))))"

text \<open>
  \<open>syncWithGoogle\<close>. Its \<open>catch\<close> records the failure in the sync state and returns a
  failed result; an error of that last statement leaves the function.
\<close>

definition sync_caught ::
  "int \<Rightarrow> js_string \<Rightarrow> app_error \<Rightarrow> world \<Rightarrow> (app_error + sync_result) \<times> world" where
  "sync_caught now userId e w =
     (case updateSyncState now userId None False (Some (message e)) w of
        (Inl e', w') \<Rightarrow> (Inl e', w')
      | (Inr u, w') \<Rightarrow> (Inr (sync_failure (fresh_result False) e), w'))"

definition syncWithGoogle ::
  "nat \<Rightarrow> env \<Rightarrow> int \<Rightarrow> js_string \<Rightarrow> sync_options \<Rightarrow> world \<Rightarrow>
   ((app_error + sync_result) \<times> world) option" where
  "syncWithGoogle bound env now userId options w =
     (case getAuthenticatedCalendar env now userId w of
        (Inl e, w1) \<Rightarrow> Some (sync_caught now userId e w1)
      | (Inr calendar, w1) \<Rightarrow>
          (let syncState = getSyncState userId w1;
               isFullSync = (so_fullSync options = Some True \<or>
                             nonempty (next_sync_token syncState) = None \<or>
                             full_sync_completed syncState \<noteq> Some True)
           in case (if isFullSync then performFullSync bound env now userId options w1
                    else performIncrementalSync bound env now userId
                           (or_default (next_sync_token syncState) []) options w1) of
                None \<Rightarrow> None
              | Some (result, w2) \<Rightarrow>
                  (case updateSyncState now userId (nextSyncToken result) (success result)
                          None w2 of
                     (Inl e, w3) \<Rightarrow> Some (sync_caught now userId e w3)
                   | (Inr u, w3) \<Rightarrow> Some (Inr result, w3))))"

text \<open>
  The function \<open>start_sync_for_user\<close> of the migration that creates \<open>sync_state\<close>:
  \<open>INSERT ... ON CONFLICT (user_id) DO UPDATE SET sync_in_progress = TRUE WHERE
  sync_state.sync_in_progress = FALSE\<close>, returning \<open>FOUND\<close>. Its companion
  \<open>complete_sync_for_user\<close> for a failed run.
\<close>

definition start_sync_for_user :: "js_string \<Rightarrow> world \<Rightarrow> (app_error + bool) \<times> world" where
  "start_sync_for_user userId w =
     (case sync_state w userId of
        None \<Rightarrow>
          if users w userId = None
          then (Inl (DbError (js ''violates foreign key constraint'')), w)
          else (Inr True,
                w\<lparr>sync_state := (sync_state w)(userId \<mapsto>
                     \<lparr>next_sync_token = None, last_sync_time = None,
                      full_sync_completed = Some False, sync_in_progress = Some True,
                      sync_error = None, sync_error_count = Some 0\<rparr>)\<rparr>)
      | Some row \<Rightarrow>
          if sync_in_progress row = Some False
          then (Inr True,
                w\<lparr>sync_state := (sync_state w)(userId \<mapsto> row\<lparr>sync_in_progress := Some True\<rparr>)\<rparr>)
          else (Inr False, w))"

definition complete_sync_for_user_failed :: "js_string \<Rightarrow> js_string option \<Rightarrow> world \<Rightarrow> world" where
  "complete_sync_for_user_failed userId error_message w =
     (case sync_state w userId of
        None \<Rightarrow> w
      | Some row \<Rightarrow>
          w\<lparr>sync_state := (sync_state w)(userId \<mapsto>
               row\<lparr>sync_in_progress := Some False, sync_error := error_message,
                   sync_error_count :=
                     Some ((case sync_error_count row of None \<Rightarrow> 0 | Some n \<Rightarrow> n) + 1)\<rparr>)\<rparr>)"

section \<open>Example inputs\<close>

text \<open>A meeting on 2025-01-02 from 10:00 to 11:00 UTC with one attendee.\<close>

definition meeting :: calendar_event_input where
  "meeting =
     \<lparr>title = Some (js ''Meeting''), description = None,
      startDate = Some (Date 1735812000000), endDate = Some (Date 1735815600000),
      location = None,
      attendees = Some [\<lparr>email = js ''ana@example.org'', displayName = None, optional = None\<rparr>],
      isAllDay = None, timezone = None, status = None\<rparr>"

text \<open>
  A deployment for the examples: the stand-in cipher pair, a provider whose event list
  is empty with the sync token \<open>nst-2\<close>, that refuses to refresh and fails every
  insert with a 500, and a database whose \<open>ILIKE\<close> is the search for the pattern
  without its two percent signs.
\<close>

definition backend_error :: google_error where
  "backend_error = \<lparr>ge_code = Some (NumCode 500), ge_message = js ''Backend Error''\<rparr>"

definition example_env :: env where
  "example_env =
     \<lparr>the_vault = example_vault,
      randomBytes = (\<lambda>n. [171, 205]),
      uuid_generate_v4 = (\<lambda>n. js ''event-'' @ js (decimal n)),
      refreshAccessToken =
        (\<lambda>n r. Inl \<lparr>ge_code = Some (NumCode 400), ge_message = js ''invalid_grant''\<rparr>),
      events_list =
        (\<lambda>n rq. Inr \<lparr>rs_items = Some [], rs_nextPageToken = None,
                       rs_nextSyncToken = Some (js ''nst-2'')\<rparr>),
      events_insert = (\<lambda>n ev. Inl backend_error),
      ilike = (\<lambda>text pattern. js_includes text (butlast (tl pattern)))\<rparr>"

text \<open>
  A user \<open>u1\<close> whose access token is the wrapped \<open>tok\<close>, stored without refresh
  token and without expiry, with a sync cursor at \<open>nst-1\<close> after a completed full
  sync, and no event.
\<close>

definition example_user :: user_row where
  "example_user =
     \<lparr>user_name = Some (js ''Ana''), picture_url = None,
      access_token = Some (js ''abcd:6c7075''), refresh_token = None,
      token_expires_at = None\<rparr>"

definition example_cursor :: sync_state_row where
  "example_cursor =
     \<lparr>next_sync_token = Some (js ''nst-1''), last_sync_time = Some 1735700000000,
      full_sync_completed = Some True, sync_in_progress = Some False,
      sync_error = None, sync_error_count = Some 0\<rparr>"

definition example_world :: world where
  "example_world =
     \<lparr>users = [js ''u1'' \<mapsto> example_user],
      sync_state = [js ''u1'' \<mapsto> example_cursor],
      calendar_events = [],
      metrics = \<lparr>apiCallsCount = 0, rateLimitHits = 0, quotaExceededCount = 0,
                 networkErrors = 0, authErrors = 0\<rparr>,
      requests = 0, draws = 0\<rparr>"

text \<open>The row of the example meeting, as a sync stores it for \<open>u1\<close>.\<close>

definition meeting_row :: event_row where
  "meeting_row =
     \<lparr>ev_id = js ''event-0'', ev_user_id = js ''u1'', google_event_id = Some (js ''g-1''),
      ev_title = js ''Meeting'', ev_description = None,
      start_date = 1735812000000, end_date = 1735815600000,
      ev_location = None, ev_attendees = [], ev_status = confirmed, ev_source = google,
      is_all_day = False, ev_timezone = js ''UTC'',
      created_at = 1735700000000, updated_at = 1735700000000,
      last_modified = 1735700000000\<rparr>"

text \<open>
  The same deployment with a provider that fails every list with a 500, and with one
  that refuses every sync token as the real one does (status 410) and answers a list
  without sync token with the empty page.
\<close>

definition failing_env :: env where
  "failing_env = example_env\<lparr>events_list := (\<lambda>n rq. Inl backend_error)\<rparr>"

definition stale_error :: google_error where
  "stale_error =
     \<lparr>ge_code = Some (NumCode 410),
      ge_message = js ''Sync token is no longer valid, a full sync is required.''\<rparr>"

definition empty_page :: list_response where
  "empty_page =
     \<lparr>rs_items = Some [], rs_nextPageToken = None, rs_nextSyncToken = Some (js ''nst-2'')\<rparr>"

definition expiring_env :: env where
  "expiring_env =
     example_env\<lparr>events_list :=
       (\<lambda>n rq. if rq_syncToken rq = None then Inr empty_page else Inl stale_error)\<rparr>"

text \<open>
  Two more providers that refuse every sync token with status 410. The first answers a
  list without sync token with the empty page and a sync token of 501 characters. The
  refusal of the second has a message that \<open>isAuthError\<close> takes for an authentication
  error.
\<close>

definition long_token :: js_string where
  "long_token = replicate 501 97"

definition long_token_env :: env where
  "long_token_env =
     example_env\<lparr>events_list :=
       (\<lambda>n rq. if rq_syncToken rq = None
                then Inr (empty_page\<lparr>rs_nextSyncToken := Some long_token\<rparr>)
                else Inl stale_error)\<rparr>"

definition unauthorized_stale_error :: google_error where
  "unauthorized_stale_error =
     \<lparr>ge_code = Some (NumCode 410),
      ge_message = js ''unauthorized: Sync token is no longer valid''\<rparr>"

definition reclassifying_env :: env where
  "reclassifying_env =
     example_env\<lparr>events_list :=
       (\<lambda>n rq. if rq_syncToken rq = None then Inr empty_page
                else Inl unauthorized_stale_error)\<rparr>"

text \<open>The example world while a sync of \<open>u1\<close> is marked as running.\<close>

definition busy_world :: world where
  "busy_world =
     example_world\<lparr>sync_state := [js ''u1'' \<mapsto> example_cursor\<lparr>sync_in_progress := Some True\<rparr>]\<rparr>"

text \<open>Tokens of a later authorization of \<open>u1\<close>.\<close>

definition later_tokens :: google_tokens where
  "later_tokens =
     \<lparr>gt_access_token = js ''new'', gt_refresh_token = Some (js ''ref''),
      gt_expires_at = Some 1735819200000, gt_scope = None\<rparr>"

definition no_filter :: events_query_params where
  "no_filter =
     \<lparr>qp_page = None, qp_limit = None, qp_startDate = None, qp_endDate = None,
      qp_status = None, qp_search = None, qp_source = None\<rparr>"

definition no_options :: sync_options where
  "no_options =
     \<lparr>so_fullSync = None, so_maxResults = None, so_timeMin = None, so_timeMax = None\<rparr>"

chapter \<open>Properties\<close>

lemmas vault_eval = encrypt_def decrypt_def utf8_encode_def utf8_decode_def js_def
  high_surrogate_def low_surrogate_def utf8_of_code_point_def units_of_code_point_def
  continuation_def second_of_three_def second_of_four_def hex_encode_def hex_digit_def
  hex_value_def colon_def example_vault_def inverts_at_def well_formed_def is_hex_def

lemmas validation_eval = validateEventInput_def isValidEmail_def plain_unit_def
  js_whitespace_def trim_def at_sign_def dot_def js_def meeting_def

section \<open>Validation of event input\<close>

lemma trim_Nil_iff: "trim t = [] \<longleftrightarrow> list_all js_whitespace t"
proof -
  have "dropWhile js_whitespace (rev (dropWhile js_whitespace t)) = [] \<longleftrightarrow> dropWhile js_whitespace t = []"
  proof (cases "dropWhile js_whitespace t")
    case Nil then show ?thesis by (simp only: rev.simps dropWhile.simps)
  next
    case (Cons x xs)
    then have "\<not> js_whitespace x" using hd_dropWhile[of js_whitespace t] by force
    moreover have "x \<in> set (rev (dropWhile js_whitespace t))" using Cons by simp
    ultimately show ?thesis using Cons by (auto simp: dropWhile_eq_Nil_conv)
  qed
  then show ?thesis by (simp add: trim_def dropWhile_eq_Nil_conv list_all_iff)
qed

lemma dot_plain: "plain_unit dot"
  by (simp add: plain_unit_def dot_def at_sign_def js_whitespace_def)

lemma isValidEmail_pattern: "isValidEmail s = email_pattern s"
proof
  assume v: "isValidEmail s"
  let ?l = "takeWhile (\<lambda>u. u \<noteq> at_sign) s"
  from v obtain x d where rest: "dropWhile (\<lambda>u. u \<noteq> at_sign) s = x # d"
    by (auto simp: isValidEmail_def Let_def split: list.splits)
  have x: "x = at_sign" using hd_dropWhile[of "\<lambda>u. u \<noteq> at_sign" s] rest by auto
  from v rest have l: "?l \<noteq> []" "list_all plain_unit ?l" and d: "list_all plain_unit d"
    and dt: "dot \<in> set (butlast (tl d))"
    by (auto simp: isValidEmail_def Let_def)
  from dt obtain p q where pq: "butlast (tl d) = p @ dot # q" by (meson split_list)
  have dne: "d \<noteq> []" using dt by auto
  have tne: "tl d \<noteq> []" using dt by auto
  have "d = hd d # tl d" using dne by simp
  also have "tl d = butlast (tl d) @ [last (tl d)]" using tne by simp
  finally have deq: "d = (hd d # p) @ [dot] @ (q @ [last (tl d)])" using pq by simp
  have "s = ?l @ dropWhile (\<lambda>u. u \<noteq> at_sign) s" by simp
  then have seq: "s = ?l @ [at_sign] @ (hd d # p) @ [dot] @ (q @ [last (tl d)])"
    using rest x deq by simp
  have "list_all plain_unit (hd d # p)" "list_all plain_unit (q @ [last (tl d)])"
    using d deq by (metis list_all_append)+
  with seq l show "email_pattern s" unfolding email_pattern_def
    by (intro exI[of _ ?l] exI[of _ "hd d # p"] exI[of _ "q @ [last (tl d)]"]) simp
next
  assume "email_pattern s"
  then obtain a b c where s: "s = a @ [at_sign] @ b @ [dot] @ c" and ne: "a \<noteq> []" "b \<noteq> []" "c \<noteq> []"
    and pl: "list_all plain_unit a" "list_all plain_unit b" "list_all plain_unit c"
    unfolding email_pattern_def by blast
  have na: "\<forall>u\<in>set a. u \<noteq> at_sign" using pl(1) by (auto simp: list_all_iff plain_unit_def)
  have tw: "takeWhile (\<lambda>u. u \<noteq> at_sign) s = a" unfolding s using na
    by (simp add: takeWhile_append2)
  have dw: "dropWhile (\<lambda>u. u \<noteq> at_sign) s = at_sign # b @ [dot] @ c" unfolding s using na
    by (simp add: dropWhile_append2)
  have "tl (b @ [dot] @ c) = tl b @ [dot] @ c" using ne(2) by simp
  moreover have "butlast (tl b @ [dot] @ c) = tl b @ [dot] @ butlast c" using ne(3)
    by (simp add: butlast_append)
  ultimately have "dot \<in> set (butlast (tl (b @ [dot] @ c)))" by simp
  then show "isValidEmail s"
    unfolding isValidEmail_def Let_def tw dw using ne pl dot_plain by simp
qed

lemma validateAttendees_ok: "validateAttendees as = Inr () \<longleftrightarrow> list_all (\<lambda>a. isValidEmail (email a)) as"
  apply (induction as) apply (auto simp: isValidEmail_def) done

lemma validateAttendees_err: "validateAttendees as = Inl x \<Longrightarrow> \<exists>m. x = BadRequestError m"
  by (induction as) (auto split: if_splits)

section \<open>Encodings of the vault\<close>

lemma hex_value_digit: "n < 16 \<Longrightarrow> hex_value (hex_digit n) = Some n"
  by (auto simp: hex_value_def hex_digit_def Let_def unat_of_nat take_bit_eq_mod)

lemma hex_digit_not_colon: "n < 16 \<Longrightarrow> hex_digit n \<noteq> colon"
proof
  assume a: "n < 16" "hex_digit n = colon"
  have "hex_value colon = None" by (simp add: hex_value_def colon_def)
  with a hex_value_digit[of n] show False by simp
qed

lemma hex_decode_encode: "hex_decode (hex_encode bs) = bs"
proof (induction bs)
  case Nil then show ?case by (simp add: hex_encode_def)
next
  case (Cons b bs)
  have "unat b div 16 < 16" using unsigned_less[of b, where ?'a=nat] by simp
  moreover have "unat b mod 16 < 16" by simp
  ultimately show ?case using Cons
    by (simp add: hex_encode_def hex_value_digit)
qed

lemma colon_notin_hex_encode: "colon \<notin> set (hex_encode bs)"
proof (induction bs)
  case Nil then show ?case by (simp add: hex_encode_def)
next
  case (Cons b bs)
  have "unat b div 16 < 16" using unsigned_less[of b, where ?'a=nat] by simp
  moreover have "unat b mod 16 < 16" by simp
  ultimately have "hex_digit (unat b div 16) \<noteq> colon" "hex_digit (unat b mod 16) \<noteq> colon"
    by (simp_all add: hex_digit_not_colon)
  with Cons show ?case by (auto simp: hex_encode_def)
qed

lemma js_split_no_sep: "sep \<notin> set s \<Longrightarrow> js_split sep s = [s]"
  by (induction s) auto

lemma js_split_append: "sep \<notin> set a \<Longrightarrow> js_split sep (a @ [sep] @ b) = a # js_split sep b"
  by (induction a) (auto split: list.splits)

lemma decode_one:
  assumes "c < 128"
  shows "units_of_utf8 (utf8_of_code_point c @ bs) = units_of_code_point c @ units_of_utf8 bs"
  using assms by (simp add: utf8_of_code_point_def units_of_code_point_def)

lemma split64: "\<exists>d r. c = 64 * d + r \<and> r < 64 \<and> c div 64 = d \<and> c mod 64 = (r::nat)"
  by (intro exI[of _ "c div 64"] exI[of _ "c mod 64"]) simp

lemma decode_two:
  assumes "128 \<le> c" "c < 2048"
  shows "units_of_utf8 (utf8_of_code_point c @ bs) = units_of_code_point c @ units_of_utf8 bs"
proof -
  obtain d r where c: "c = 64 * d + r" "r < 64" and dv: "c div 64 = d" "c mod 64 = r"
    using split64[of c] by blast
  have d: "2 \<le> d" "d < 32" using assms c by simp_all
  have bytes: "utf8_of_code_point c = [192 + d, 128 + r]"
    using assms dv by (simp add: utf8_of_code_point_def)
  have rebuilt: "(192 + d - 192) * 64 + (128 + r - 128) = c" using c by simp
  show ?thesis using d c(2) rebuilt unfolding bytes
    by (simp add: continuation_def)
qed

lemma decode_three:
  assumes "2048 \<le> c" "c < 65536" "\<not> high_surrogate c" "\<not> low_surrogate c"
  shows "units_of_utf8 (utf8_of_code_point c @ bs) = units_of_code_point c @ units_of_utf8 bs"
proof -
  obtain d r where c: "c = 64 * d + r" "r < 64" and dv: "c div 64 = d" "c mod 64 = r"
    using split64[of c] by blast
  obtain q m where d: "d = 64 * q + m" "m < 64" and dv2: "d div 64 = q" "d mod 64 = m"
    using split64[of d] by blast
  have "c div 4096 = c div 64 div 64" by (simp add: div_mult2_eq[symmetric])
  then have dv3: "c div 4096 = q" using dv dv2 by simp
  have bytes: "utf8_of_code_point c = [224 + q, 128 + m, 128 + r]"
    using assms(1,2) dv dv2 dv3 by (simp add: utf8_of_code_point_def)
  have q: "q \<le> 15" using assms(2) c d by simp
  have lo: "q = 0 \<Longrightarrow> 32 \<le> m" using assms(1) c d by simp
  have hi: "q = 13 \<Longrightarrow> m \<le> 31"
    using assms(3,4) c d unfolding high_surrogate_def low_surrogate_def by simp
  have s: "second_of_three (224 + q) (128 + m)"
    using lo hi d(2) unfolding second_of_three_def continuation_def by auto
  have rebuilt: "(224 + q - 224) * 4096 + (128 + m - 128) * 64 + (128 + r - 128) = c"
    using c d by simp
  show ?thesis using q s c(2) rebuilt unfolding bytes
    by (simp add: continuation_def)
qed

lemma decode_four:
  assumes "65536 \<le> c" "c < 1114112"
  shows "units_of_utf8 (utf8_of_code_point c @ bs) = units_of_code_point c @ units_of_utf8 bs"
proof -
  obtain d r where c: "c = 64 * d + r" "r < 64" and dv: "c div 64 = d" "c mod 64 = r"
    using split64[of c] by blast
  obtain e m where d: "d = 64 * e + m" "m < 64" and dv2: "d div 64 = e" "d mod 64 = m"
    using split64[of d] by blast
  obtain q n where e: "e = 64 * q + n" "n < 64" and dv3: "e div 64 = q" "e mod 64 = n"
    using split64[of e] by blast
  have "c div 4096 = c div 64 div 64" by (simp add: div_mult2_eq[symmetric])
  then have dv4: "c div 4096 = e" using dv dv2 by simp
  have "c div 262144 = c div 4096 div 64" by (simp add: div_mult2_eq[symmetric])
  then have dv5: "c div 262144 = q" using dv4 dv3 by simp
  have bytes: "utf8_of_code_point c = [240 + q, 128 + n, 128 + m, 128 + r]"
    using assms(1) dv dv2 dv3 dv4 dv5 by (simp add: utf8_of_code_point_def)
  have q: "q \<le> 4" using assms(2) c d e by simp
  have lo: "q = 0 \<Longrightarrow> 16 \<le> n" using assms(1) c d e by simp
  have hi: "q = 4 \<Longrightarrow> n \<le> 15" using assms(2) c d e by simp
  have s: "second_of_four (240 + q) (128 + n)"
    using lo hi e(2) unfolding second_of_four_def continuation_def by auto
  have rebuilt: "(240 + q - 240) * 262144 + (128 + n - 128) * 4096 + (128 + m - 128) * 64 +
              (128 + r - 128) = c"
    using c d e by simp
  show ?thesis using q s c(2) d(2) rebuilt unfolding bytes
    by (simp add: continuation_def)
qed

lemma pair_code_point:
  assumes "high_surrogate h" "low_surrogate l"
  shows "65536 \<le> 65536 + (h - 55296) * 1024 + (l - 56320)"
    and "65536 + (h - 55296) * 1024 + (l - 56320) < 1114112"
    and "units_of_code_point (65536 + (h - 55296) * 1024 + (l - 56320)) = [h, l]"
proof -
  define a where "a = h - 55296"
  define b where "b = l - 56320"
  have h: "h = 55296 + a" "a < 1024" and l: "l = 56320 + b" "b < 1024"
    using assms unfolding high_surrogate_def low_surrogate_def a_def b_def by linarith+
  show "65536 \<le> 65536 + (h - 55296) * 1024 + (l - 56320)" by simp
  show "65536 + (h - 55296) * 1024 + (l - 56320) < 1114112" using h l by simp
  show "units_of_code_point (65536 + (h - 55296) * 1024 + (l - 56320)) = [h, l]"
    using h l by (simp add: units_of_code_point_def)
qed

lemma decode_scalar:
  assumes "c < 65536" "\<not> high_surrogate c" "\<not> low_surrogate c"
  shows "units_of_utf8 (utf8_of_code_point c @ bs) = c # units_of_utf8 bs"
proof -
  have "units_of_code_point c = [c]" using assms by (simp add: units_of_code_point_def)
  moreover have "units_of_utf8 (utf8_of_code_point c @ bs) = units_of_code_point c @ units_of_utf8 bs"
    using assms decode_one[of c bs] decode_two[of c bs] decode_three[of c bs]
    by (cases "c < 128"; cases "c < 2048") auto
  ultimately show ?thesis by simp
qed

lemma units_roundtrip:
  "paired_surrogates us \<Longrightarrow> list_all (\<lambda>u. u < 65536) us \<Longrightarrow>
   units_of_utf8 (utf8_of_units us) = us"
proof (induction us rule: paired_surrogates.induct)
  case 1 then show ?case by simp
next
  case (2 h)
  then show ?case using decode_scalar[of h "[]"] by simp
next
  case (3 h l us)
  show ?case
  proof (cases "high_surrogate h")
    case True
    with 3 have l: "low_surrogate l" and r: "units_of_utf8 (utf8_of_units us) = us" by auto
    show ?thesis
      using True l r pair_code_point[OF True l]
            decode_four[of "65536 + (h - 55296) * 1024 + (l - 56320)" "utf8_of_units us"]
      by simp
  next
    case False
    with 3 have nl: "\<not> low_surrogate h" and r: "units_of_utf8 (utf8_of_units (l # us)) = l # us"
      and h: "h < 65536" by auto
    show ?thesis using False nl r decode_scalar[OF h False nl, of "utf8_of_units (l # us)"]
      by simp
  qed
qed

lemma code_point_bytes: "c < 1114112 \<Longrightarrow> list_all (\<lambda>b. b < 256) (utf8_of_code_point c)"
  by (auto simp: utf8_of_code_point_def)

lemma units_bytes: "list_all (\<lambda>u. u < 65536) us \<Longrightarrow> list_all (\<lambda>b. b < 256) (utf8_of_units us)"
proof (induction us rule: utf8_of_units.induct)
  case 1 then show ?case by simp
next
  case (2 h) then show ?case using code_point_bytes[of h] by simp
next
  case (3 h l us)
  then show ?case
    using code_point_bytes[of h] code_point_bytes[of "65536 + (h - 55296) * 1024 + (l - 56320)"]
          pair_code_point(2)[of h l]
    by (auto)
qed

lemma unat_of_nat_bytes: "list_all (\<lambda>b. b < 256) bs \<Longrightarrow> map unat (map of_nat bs :: byte list) = bs"
  by (induction bs) (auto simp: unat_of_nat take_bit_eq_mod)

lemma units_small: "list_all (\<lambda>u. u < 65536) (map unat (s :: js_string))"
proof (induction s)
  case Nil then show ?case by simp
next
  case (Cons u s)
  then show ?case using unsigned_less[of u, where ?'a=nat] by simp
qed

lemma utf8_roundtrip: "well_formed s \<Longrightarrow> utf8_decode (utf8_encode s) = s"
proof -
  assume wf: "well_formed s"
  have "map unat (utf8_encode s) = utf8_of_units (map unat s)"
    unfolding utf8_encode_def using unat_of_nat_bytes[OF units_bytes[OF units_small]] .
  then have "units_of_utf8 (map unat (utf8_encode s)) = map unat s"
    using units_roundtrip[OF _ units_small] wf by (simp add: well_formed_def)
  then show ?thesis by (simp add: utf8_decode_def map_idI)
qed

section \<open>Claims about the validation\<close>

text \<open>
  C7 (as amended). For an input whose dates, where present, are valid dates,
  \<open>validateEventInput\<close> accepts exactly when the title is present and not empty after
  trimming, both dates are present with the start strictly before the end, and every
  supplied attendee has a well-formed email; every other input is rejected with a
  \<open>BadRequestError\<close>, and \<open>createEvent\<close> then throws it with the state as it
  was: no request has been sent upstream and no row written.
\<close>

theorem validateEventInput_accepts_iff:
  assumes "case startDate e of None \<Rightarrow> True | Some d \<Rightarrow> valid_date d"
      and "case endDate e of None \<Rightarrow> True | Some d \<Rightarrow> valid_date d"
  shows "(validateEventInput e = Inr ()) =
           ((\<exists>t. title e = Some t \<and> trim t \<noteq> []) \<and>
            (\<exists>s f. startDate e = Some (Date s) \<and> endDate e = Some (Date f) \<and> s < f) \<and>
            (case attendees e of None \<Rightarrow> True
             | Some as \<Rightarrow> list_all (\<lambda>a. isValidEmail (email a)) as)) \<and>
         (validateEventInput e = Inr () \<or> (\<exists>m. validateEventInput e = Inl (BadRequestError m))) \<and>
         (\<forall>err. validateEventInput e = Inl err \<longrightarrow>
                createEvent env now userId e w = (Inl err, w))"
proof -
  have t: "trim [] = []" by (simp add: trim_def)
  have "(validateEventInput e = Inr ()) =
           ((\<exists>t. title e = Some t \<and> trim t \<noteq> []) \<and>
            (\<exists>s f. startDate e = Some (Date s) \<and> endDate e = Some (Date f) \<and> s < f) \<and>
            (case attendees e of None \<Rightarrow> True
             | Some as \<Rightarrow> list_all (\<lambda>a. isValidEmail (email a)) as))"
    using assms
    by (cases "title e"; cases "startDate e"; cases "endDate e"; cases "attendees e";
        cases "the (startDate e)"; cases "the (endDate e)")
       (auto simp: validateEventInput_def validateAttendees_ok t)
  moreover have "validateEventInput e = Inr () \<or>
                 (\<exists>m. validateEventInput e = Inl (BadRequestError m))"
    by (auto simp: validateEventInput_def split: option.splits dest: validateAttendees_err)
       (metis old.sum.exhaust old.unit.exhaust validateAttendees_err)+
  moreover have "\<forall>err. validateEventInput e = Inl err \<longrightarrow>
                      createEvent env now userId e w = (Inl err, w)"
    by (simp add: createEvent_def rollback_def Let_def)
  ultimately show ?thesis by simp
qed

text \<open>
  Witness for C7: the example meeting has valid dates, a title, a start before its end
  and a well-formed attendee email, and is accepted.
\<close>

theorem validateEventInput_accepts_iff_witness:
  "(case startDate meeting of None \<Rightarrow> True | Some d \<Rightarrow> valid_date d) \<and>
   (case endDate meeting of None \<Rightarrow> True | Some d \<Rightarrow> valid_date d) \<and>
   validateEventInput meeting = Inr ()"
proof -
  have a: "case startDate meeting of None \<Rightarrow> True | Some d \<Rightarrow> valid_date d"
    by (simp add: meeting_def)
  have b: "case endDate meeting of None \<Rightarrow> True | Some d \<Rightarrow> valid_date d"
    by (simp add: meeting_def)
  show ?thesis
    using a b validateEventInput_accepts_iff[OF a b]
    by (simp add: validation_eval)
qed

text \<open>
  Counterexample to C7 as stated: the example meeting with its end set equal to its
  start is rejected, although every other condition of the claim holds.
\<close>

theorem validateEventInput_equal_dates_rejected:
  "validateEventInput (meeting\<lparr>endDate := Some (Date 1735812000000)\<rparr>) =
     Inl (BadRequestError (js ''End date must be after start date''))"
  by (simp add: validation_eval)

section \<open>Claims about the vault\<close>

lemma is_hex_no_colon: "is_hex i \<Longrightarrow> colon \<notin> set i"
proof
  assume a: "is_hex i" "colon \<in> set i"
  have "hex_value colon = None" by (simp add: hex_value_def colon_def)
  with a show False by (auto simp: is_hex_def list_all_iff)
qed

lemma decrypt_prefix:
  assumes "colon \<notin> set i"
  shows "decrypt v (i @ [colon] @ c) =
     (if colon \<in> set c then Inl (InternalServerError (js ''Failed to decrypt token''))
      else case decipher_run v (hex_decode c) of
             None \<Rightarrow> Inl (InternalServerError (js ''Failed to decrypt token''))
           | Some decrypted \<Rightarrow> Inr (utf8_decode decrypted))"
proof (cases "colon \<in> set c")
  case False
  then show ?thesis using assms js_split_append[OF assms, of c] js_split_no_sep[OF False]
    by (simp add: decrypt_def)
next
  case True
  then obtain a b where "c = a @ [colon] @ b" "colon \<notin> set a"
    by (metis append_Cons append_Nil split_list_first)
  then have "js_split colon c = a # js_split colon b" using js_split_append by simp
  moreover have "js_split colon b \<noteq> []" by (cases b) (auto split: list.splits)
  ultimately show ?thesis using True js_split_append[OF assms, of c]
    by (auto simp: decrypt_def split: list.splits)
qed

lemma lone_surrogate_lost:
  assumes "inverts_at v (utf8_encode [55296])" and "encrypt v iv [55296] = Inr s"
  shows "decrypt v s = Inr [65533]"
proof -
  from assms(2) obtain c where c: "cipher_run v (utf8_encode [55296]) = Some c"
    and s: "s = hex_encode iv @ [colon] @ hex_encode c"
    by (auto simp: encrypt_def split: option.splits)
  from assms(1) c have d: "decipher_run v c = Some (utf8_encode [55296])" by (simp add: inverts_at_def)
  have e: "utf8_decode (utf8_encode [55296]) = [65533]"
    by (simp add: utf8_decode_def utf8_encode_def high_surrogate_def second_of_three_def continuation_def units_of_code_point_def)
  show ?thesis unfolding s
    using decrypt_prefix[OF colon_notin_hex_encode, of v iv "hex_encode c"] colon_notin_hex_encode[of c]
          d e
    by (simp add: hex_decode_encode)
qed

lemma unwrap_wrap:
  assumes "well_formed x" and "inverts_at v (utf8_encode x)" and "encrypt v iv x = Inr s"
  shows "decrypt v s = Inr x"
proof -
  from assms(3) obtain c where c: "cipher_run v (utf8_encode x) = Some c"
    and s: "s = hex_encode iv @ [colon] @ hex_encode c"
    by (auto simp: encrypt_def split: option.splits)
  from assms(2) c have d: "decipher_run v c = Some (utf8_encode x)" by (simp add: inverts_at_def)
  show ?thesis unfolding s
    using decrypt_prefix[OF colon_notin_hex_encode, of v iv "hex_encode c"] colon_notin_hex_encode[of c]
          d utf8_roundtrip[OF assms(1)]
    by (simp add: hex_decode_encode)
qed

text \<open>
  C9 (as amended). For every plaintext in which every surrogate is half of a pair, and
  a cipher pair that inverts at its bytes: if \<open>encrypt\<close> returns a wrapped string,
  \<open>decrypt\<close> of that string returns the plaintext.
\<close>

theorem decrypt_encrypt:
  assumes "well_formed x" and "inverts_at v (utf8_encode x)" and "encrypt v iv x = Inr s"
  shows "decrypt v s = Inr x"
  using assms by (rule unwrap_wrap)

text \<open>
  Witness for C9: the plaintext \<open>tok\<close> under the example cipher pair and the IV
  \<open>ab cd\<close>.
\<close>

theorem decrypt_encrypt_witness:
  "well_formed (js ''tok'') \<and> inverts_at example_vault (utf8_encode (js ''tok'')) \<and>
   encrypt example_vault [171, 205] (js ''tok'') = Inr (js ''abcd:6c7075'') \<and>
   decrypt example_vault (js ''abcd:6c7075'') = Inr (js ''tok'')"
proof -
  have a: "well_formed (js ''tok'')" by (simp add: vault_eval)
  have b: "inverts_at example_vault (utf8_encode (js ''tok''))" by (simp add: vault_eval)
  have c: "encrypt example_vault [171, 205] (js ''tok'') = Inr (js ''abcd:6c7075'')"
    by (simp add: vault_eval)
  show ?thesis using a b c decrypt_encrypt[OF a b c] by simp
qed

text \<open>
  Counterexample to C9 as stated: the plaintext of one unpaired high surrogate
  (U+D800) is wrapped, and unwrapping gives U+FFFD, not the plaintext.
\<close>

theorem decrypt_encrypt_lone_surrogate:
  "encrypt example_vault [171, 205] [55296] = Inr (js ''abcd:bec0f0'') \<and>
   decrypt example_vault (js ''abcd:bec0f0'') = Inr [65533] \<and>
   decrypt example_vault (js ''abcd:bec0f0'') \<noteq> Inr [55296]"
  by (simp add: vault_eval)

text \<open>
  C10. For hex prefixes \<open>i1\<close> and \<open>i2\<close> and any payload \<open>c\<close>, decrypting
  \<open>i1:c\<close> and \<open>i2:c\<close> gives the same result, plaintext or failure: the IV in a
  wrapped token is never read.
\<close>

theorem decrypt_ignores_iv:
  "is_hex i1 \<Longrightarrow> is_hex i2 \<Longrightarrow>
   decrypt v (i1 @ [colon] @ c) = decrypt v (i2 @ [colon] @ c)"
  by (simp only: decrypt_prefix[OF is_hex_no_colon])

text \<open>Witness for C10: the prefixes \<open>abcd\<close> and \<open>0123\<close> before one payload.\<close>

theorem decrypt_ignores_iv_witness:
  "is_hex (js ''abcd'') \<and> is_hex (js ''0123'') \<and>
   decrypt example_vault (js ''abcd'' @ [colon] @ js ''6c7075'') =
   decrypt example_vault (js ''0123'' @ [colon] @ js ''6c7075'')"
proof -
  have a: "is_hex (js ''abcd'')" and b: "is_hex (js ''0123'')" by (simp_all add: vault_eval)
  show ?thesis using a b decrypt_ignores_iv[OF a b] by simp
qed

section \<open>Claims about the token service\<close>

lemmas token_eval = getStoredTokens_def example_env_def example_world_def
  example_user_def vault_eval Let_def

lemma storeTokens_sql_arity: "placeholder_count storeTokens_sql = 3"
  by (simp add: placeholder_count_def storeTokens_sql_def)

lemma run_storeTokens_sql:
  "run_users_update storeTokens_sql [a, b, c, d] table =
     Inl (DbError (js ''bind message supplies the wrong number of parameters''))"
  by (simp add: run_users_update_def storeTokens_sql_arity)

lemma storeTokens_fails:
  "fst (storeTokens env u t w) = Inl (InternalServerError (js ''Failed to store authentication tokens''))"
  by (simp add: storeTokens_def run_storeTokens_sql Let_def split: prod.splits sum.splits)

lemma encrypt_next_frame:
  "encrypt_next env x w = (r, w') \<Longrightarrow> w' = w\<lparr>draws := draws w + 1\<rparr>"
  by (auto simp: encrypt_next_def)

lemma encrypt_refresh_frame:
  "encrypt_refresh env x w = (r, w') \<Longrightarrow> \<exists>n. w' = w\<lparr>draws := n\<rparr>"
  by (auto simp: encrypt_refresh_def encrypt_next_def split: option.splits if_splits sum.splits
      intro: exI[of _ "draws w"])

lemma storeTokens_frame:
  "\<exists>n. snd (storeTokens env u t w) = w\<lparr>draws := n\<rparr>"
  by (auto simp: storeTokens_def run_storeTokens_sql Let_def encrypt_next_def
      split: prod.splits sum.splits dest!: encrypt_refresh_frame)

lemma refreshGoogleToken_fails: "fst (refreshGoogleToken env u w) \<noteq> Inr t"
proof -
  have "\<And>nt w1 x w2. storeTokens env u nt w1 = (x, w2) \<Longrightarrow> \<exists>e. x = Inl e"
    using storeTokens_fails by (metis fst_conv)
  then show ?thesis
    by (auto simp: refreshGoogleToken_def Let_def split: sum.splits option.splits prod.splits)
qed

lemma stored_example:
  "getStoredTokens example_env (js ''u1'') (example_world\<lparr>draws := n\<rparr>) =
     Inr (Some \<lparr>accessToken = js ''tok'', refreshToken = None, expiresAt = None\<rparr>)"
  by (simp add: token_eval)

lemma wrapped_nonempty: "encrypt v iv x = Inr c \<Longrightarrow> c \<noteq> []"
  by (auto simp: encrypt_def split: option.splits)

lemma encrypt_refresh_cases:
  "encrypt_refresh env r w = (Inr p, w') \<Longrightarrow>
     (nonempty r = None \<and> p = SqlNull) \<or>
     (\<exists>x c iv. nonempty r = Some x \<and> p = SqlText c \<and> encrypt (the_vault env) iv x = Inr c)"
  by (auto simp: encrypt_refresh_def encrypt_next_def nonempty_def split: option.splits if_splits sum.splits)

lemma run_updateUser_sql:
  "table u = Some r \<Longrightarrow>
   run_users_update updateUser_sql
     [SqlText n, text_param pic, SqlText a, rp, timestamp_param ex, SqlText u] table = Inr table' \<Longrightarrow>
   rp = SqlNull \<or> (\<exists>c. rp = SqlText c) \<Longrightarrow>
   \<exists>r'. table' u = Some r' \<and> access_token r' = Some a \<and>
        refresh_token r' = (case rp of SqlText c \<Rightarrow> Some c | _ \<Rightarrow> None) \<and>
        token_expires_at r' = ex"
  by (cases pic; cases ex)
     (auto simp: run_users_update_def updateUser_sql_def placeholder_count_def text_param_def
        timestamp_param_def split: if_splits sum.splits)

text \<open>
  The statement of \<open>storeTokens\<close> assigns to \<open>access_token\<close> the placeholder of its
  \<open>WHERE\<close> clause, which is bound to the user id, and requires three parameters
  where four are bound.
\<close>

lemma storeTokens_bindings:
  "map_of (set_clause storeTokens_sql) access_token_col = Some (where_id storeTokens_sql) \<and>
   map_of (set_clause storeTokens_sql) refresh_token_col = Some 2 \<and>
   map_of (set_clause storeTokens_sql) token_expires_at_col = Some 3 \<and>
   placeholder_count storeTokens_sql = 3"
  by (simp add: storeTokens_sql_def placeholder_count_def)

text \<open>
  The other function that stores tokens, \<open>updateUserFromGoogleProfile\<close>, binds each
  value to its column: after it, \<open>getStoredTokens\<close> returns the tokens it was given.
\<close>

lemma updateUser_then_load:
  assumes upd: "updateUserFromGoogleProfile env u n pic t w = (Inr r, w')"
      and user: "users w u \<noteq> None"
      and wf: "well_formed (gt_access_token t)" "gt_access_token t \<noteq> []"
              "case gt_refresh_token t of None \<Rightarrow> True | Some x \<Rightarrow> well_formed x"
      and inv: "\<And>p. inverts_at (the_vault env) p"
  shows "getStoredTokens env u w' =
           Inr (Some \<lparr>accessToken = gt_access_token t,
                      refreshToken = nonempty (gt_refresh_token t),
                      expiresAt = gt_expires_at t\<rparr>)"
proof -
  from upd obtain a w1 rp w2 table where
      a: "encrypt_next env (gt_access_token t) w = (Inr a, w1)"
  and rp: "encrypt_refresh env (gt_refresh_token t) w1 = (Inr rp, w2)"
  and run: "run_users_update updateUser_sql
              [SqlText n, text_param pic, SqlText a, rp, timestamp_param (gt_expires_at t), SqlText u]
              (users w2) = Inr table"
  and w': "w' = w2\<lparr>users := table\<rparr>"
    by (auto simp: updateUserFromGoogleProfile_def Let_def split: prod.splits sum.splits)
  have u2: "users w2 = users w"
    using a rp by (auto simp: encrypt_next_def dest!: encrypt_refresh_frame)
  obtain r0 where r0: "users w2 u = Some r0" using user u2 by auto
  have a': "encrypt (the_vault env) (randomBytes env (draws w)) (gt_access_token t) = Inr a"
    using a by (simp add: encrypt_next_def)
  have da: "decrypt (the_vault env) a = Inr (gt_access_token t)"
    using unwrap_wrap[OF wf(1) inv a'] .
  have ane: "a \<noteq> []" using wrapped_nonempty[OF a'] .
  from encrypt_refresh_cases[OF rp] have rpc: "rp = SqlNull \<or> (\<exists>c. rp = SqlText c)" by auto
  from run_updateUser_sql[OF r0 run rpc] obtain r' where
    r': "table u = Some r'" "access_token r' = Some a"
        "refresh_token r' = (case rp of SqlText c \<Rightarrow> Some c | _ \<Rightarrow> None)"
        "token_expires_at r' = gt_expires_at t" by blast
  from encrypt_refresh_cases[OF rp] show ?thesis
  proof
    assume "nonempty (gt_refresh_token t) = None \<and> rp = SqlNull"
    then show ?thesis using r' da ane w' by (simp add: getStoredTokens_def)
  next
    assume "\<exists>x c iv. nonempty (gt_refresh_token t) = Some x \<and> rp = SqlText c \<and>
              encrypt (the_vault env) iv x = Inr c"
    then obtain x c iv where x: "nonempty (gt_refresh_token t) = Some x" "rp = SqlText c"
      "encrypt (the_vault env) iv x = Inr c" by blast
    have "gt_refresh_token t = Some x" using x(1) by (auto simp: nonempty_def split: option.splits if_splits)
    then have "well_formed x" using wf(3) by simp
    then have "decrypt (the_vault env) c = Inr x" using unwrap_wrap[OF _ inv x(3)] by simp
    moreover have "c \<noteq> []" using wrapped_nonempty[OF x(3)] .
    ultimately show ?thesis using r' da ane w' x by (simp add: getStoredTokens_def)
  qed
qed

text \<open>
  C1 (the code at the failing input). For the user \<open>u1\<close> and the later tokens,
  \<open>storeTokens\<close> throws and writes nothing, and \<open>getStoredTokens\<close> afterwards still
  returns the earlier token \<open>tok\<close>, not the tokens that were to be stored.
\<close>

theorem storeTokens_rejected:
  "storeTokens example_env (js ''u1'') later_tokens example_world =
     (Inl (InternalServerError (js ''Failed to store authentication tokens'')),
      example_world\<lparr>draws := 2\<rparr>) \<and>
   getStoredTokens example_env (js ''u1'') (example_world\<lparr>draws := 2\<rparr>) =
     Inr (Some \<lparr>accessToken = js ''tok'', refreshToken = None, expiresAt = None\<rparr>)"
proof -
  have "storeTokens example_env (js ''u1'') later_tokens example_world =
     (Inl (InternalServerError (js ''Failed to store authentication tokens'')),
      example_world\<lparr>draws := 2\<rparr>)"
    by (simp add: storeTokens_def run_storeTokens_sql encrypt_next_def encrypt_refresh_def
          later_tokens_def example_env_def example_world_def vault_eval Let_def)
  then show ?thesis using stored_example[of 2] by simp
qed

text \<open>
  C5 (as amended). When \<open>ensureValidToken\<close> at the instant \<open>now\<close> returns an access
  token, credentials are stored and one of three cases holds: they have no expiry and
  the stored token is returned as it is; their expiry is at least \<open>now\<close> plus five
  minutes and the stored token is returned; or their expiry is earlier than that, a
  refresh has been performed and its access token is returned. When no credentials are
  stored, the call fails with an \<open>UnauthorizedError\<close>.
\<close>

theorem ensureValidToken_returns:
  "(ensureValidToken env now u w = (Inr A, w') \<longrightarrow>
      (\<exists>st. getStoredTokens env u w = Inr (Some st) \<and>
         ((expiresAt st = None \<and> A = accessToken st \<and> w' = w) \<or>
          (\<exists>e. expiresAt st = Some e \<and> now + bufferTime \<le> e \<and> A = accessToken st \<and> w' = w) \<or>
          (\<exists>e t. expiresAt st = Some e \<and> e < now + bufferTime \<and>
                 refreshGoogleToken env u w = (Inr t, w') \<and> A = gt_access_token t)))) \<and>
   (getStoredTokens env u w = Inr None \<longrightarrow>
      ensureValidToken env now u w =
        (Inl (UnauthorizedError (js ''No authentication tokens found'')), w))"
  by (auto simp: ensureValidToken_def split: sum.splits option.splits prod.splits if_splits)

text \<open>
  Witness for C5: the user \<open>u1\<close> with an expiry one hour after \<open>now\<close> gets the
  stored token, and a user without row is refused.
\<close>

theorem ensureValidToken_returns_witness:
  "ensureValidToken example_env 1735800000000 (js ''u1'')
     (example_world\<lparr>users := [js ''u1'' \<mapsto> example_user\<lparr>token_expires_at := Some 1735803600000\<rparr>]\<rparr>) =
     (Inr (js ''tok''),
      example_world\<lparr>users := [js ''u1'' \<mapsto> example_user\<lparr>token_expires_at := Some 1735803600000\<rparr>]\<rparr>) \<and>
   1735800000000 + bufferTime \<le> 1735803600000 \<and>
   getStoredTokens example_env (js ''u2'') example_world = Inr None \<and>
   ensureValidToken example_env 1735800000000 (js ''u2'') example_world =
     (Inl (UnauthorizedError (js ''No authentication tokens found'')), example_world)"
proof -
  let ?w = "example_world\<lparr>users := [js ''u1'' \<mapsto> example_user\<lparr>token_expires_at := Some 1735803600000\<rparr>]\<rparr>"
  have a: "getStoredTokens example_env (js ''u1'') ?w =
     Inr (Some \<lparr>accessToken = js ''tok'', refreshToken = None, expiresAt = Some 1735803600000\<rparr>)"
    by (simp add: token_eval)
  have b: "ensureValidToken example_env 1735800000000 (js ''u1'') ?w = (Inr (js ''tok''), ?w)"
    by (simp add: ensureValidToken_def a bufferTime_def)
  have c: "getStoredTokens example_env (js ''u2'') example_world = Inr None"
    by (simp add: getStoredTokens_def example_world_def js_def)
  show ?thesis
    using a b c
      ensureValidToken_returns[of example_env 1735800000000 "js ''u1''" ?w "js ''tok''" ?w]
      ensureValidToken_returns[of example_env 1735800000000 "js ''u2''" example_world]
    by (simp add: bufferTime_def)
qed

text \<open>
  Counterexample to C5 as stated: the credentials of \<open>u1\<close> have no expiry, and the
  stored token is returned with no expiry to compare with \<open>now\<close> plus five minutes.
\<close>

theorem ensureValidToken_without_expiry:
  "getStoredTokens example_env (js ''u1'') example_world =
     Inr (Some \<lparr>accessToken = js ''tok'', refreshToken = None, expiresAt = None\<rparr>) \<and>
   ensureValidToken example_env 1735800000000 (js ''u1'') example_world =
     (Inr (js ''tok''), example_world)"
proof -
  have a: "getStoredTokens example_env (js ''u1'') example_world =
     Inr (Some \<lparr>accessToken = js ''tok'', refreshToken = None, expiresAt = None\<rparr>)"
    by (simp add: token_eval)
  then show ?thesis by (simp add: ensureValidToken_def)
qed

section \<open>Claims about reading events\<close>

lemma regex_lines_nonempty: "regex_lines s \<noteq> []"
  by (cases s) (auto split: list.splits)

lemma regex_lines_one: "list_all no_terminator t \<Longrightarrow> regex_lines t = [t]"
  by (induction t) (auto simp: no_terminator_def)

lemma regex_lines_append:
  "list_all no_terminator t \<Longrightarrow>
   regex_lines (s @ t) = butlast (regex_lines s) @ [last (regex_lines s) @ t]"
proof (induction s)
  case Nil then show ?case by (simp add: regex_lines_one)
next
  case (Cons c s)
  then show ?case using regex_lines_nonempty[of s] regex_lines_nonempty[of "s @ t"]
    by (auto split: list.splits)
qed

lemma regex_lines_head:
  "regex_lines query_head =
     [[], ''        SELECT '',
      ''          id, google_event_id, title, description, start_date, end_date,'',
      ''          location, attendees, is_all_day, timezone, status, source,'',
      ''          created_at, updated_at, last_modified'',
      ''        FROM calendar_events '', ''        WHERE user_id = $1'', ''      '']"
  by (simp add: query_head_def line_feed_def)

lemma regex_lines_query:
  "list_all no_terminator t \<Longrightarrow>
   regex_lines (query_head @ t) =
     [[], ''        SELECT '',
      ''          id, google_event_id, title, description, start_date, end_date,'',
      ''          location, attendees, is_all_day, timezone, status, source,'',
      ''          created_at, updated_at, last_modified'',
      ''        FROM calendar_events '', ''        WHERE user_id = $1'', ''      '' @ t]"
  by (simp add: regex_lines_append regex_lines_head)

text \<open>
  Whatever the filters, the first replacement finds nothing to replace (between
  \<open>SELECT\<close> and \<open>FROM\<close> the query has line feeds) and the second removes the
  order and the page.
\<close>

lemma no_select_from: "\<not> matches_select_from (build_query params)"
  by (cases "qp_startDate params"; cases "qp_endDate params"; cases "qp_status params";
      cases "source_filtered (qp_source params)"; cases "nonempty (qp_search params)")
     (simp_all add: build_query_def regex_lines_query no_terminator_def matches_select_from_def Let_def digit_char_def)

lemma order_limit_offset: "matches_order_limit_offset (build_query params)"
  by (cases "qp_startDate params"; cases "qp_endDate params"; cases "qp_status params";
      cases "source_filtered (qp_source params)"; cases "nonempty (qp_search params)")
     (simp_all add: build_query_def regex_lines_query no_terminator_def matches_order_limit_offset_def Let_def digit_char_def)

lemma getEvents_Inr:
  assumes "getEvents env userId params w = Inr resp"
  shows "0 \<le> limit_of params"
    and "0 \<le> offset_of params"
    and "events resp =
           map mapDatabaseEventToResponse
             (take (nat (limit_of params))
                (drop (nat (offset_of params))
                   (sort_key start_date (matching_events env userId params w))))"
    and "pg_total resp = (if matching_events env userId params w = [] then Number 0 else NaN)"
    and "pg_hasNext resp = js_less (Number (offset_of params + limit_of params)) (pg_total resp)"
  using assms no_select_from[of params]
  by (auto simp: getEvents_def Let_def split: if_splits)

lemmas events_eval = getEvents_def matching_events_def matches_filters_def page_of_def
  limit_of_def offset_of_def no_filter_def meeting_row_def example_world_def
  source_filtered_def nonempty_def mapDatabaseEventToResponse_def Let_def js_def

lemma matching_one:
  "matching_events example_env (js ''u1'') (no_filter\<lparr>qp_page := pg\<rparr>)
     (example_world\<lparr>calendar_events := [meeting_row]\<rparr>) = [meeting_row]"
  by (simp add: events_eval)

text \<open>
  C8 (as amended). Whenever \<open>getEvents\<close> returns a page for a page number and a limit
  such that \<open>(page - 1) * limit\<close> is at least the number of events matching the
  filter, the page of events is empty and \<open>hasNext\<close> is false.
\<close>

theorem getEvents_past_the_end:
  assumes "getEvents env userId params w = Inr resp"
      and "int (length (matching_events env userId params w)) \<le>
           (page_of params - 1) * limit_of params"
  shows "events resp = [] \<and> pg_hasNext resp = False"
proof -
  have "length (sort_key start_date (matching_events env userId params w)) \<le>
        nat (offset_of params)"
    using assms(2) by (simp add: offset_of_def)
  then have "events resp = []" using getEvents_Inr(3)[OF assms(1)] by simp
  moreover have "\<not> js_less (Number (offset_of params + limit_of params)) (pg_total resp)"
    using getEvents_Inr(1,2,4)[OF assms(1)] by auto
  ultimately show ?thesis using getEvents_Inr(5)[OF assms(1)] by simp
qed

text \<open>
  Witness for C8: page 2 with the limit 50, for a user with one event.
\<close>

theorem getEvents_past_the_end_witness:
  "getEvents example_env (js ''u1'') (no_filter\<lparr>qp_page := Some 2\<rparr>)
     (example_world\<lparr>calendar_events := [meeting_row]\<rparr>) =
     Inr \<lparr>events = [], pg_page = 2, pg_limit = 50, pg_total = NaN, pg_hasNext = False,
           pg_hasPrev = True\<rparr> \<and>
   int (length (matching_events example_env (js ''u1'') (no_filter\<lparr>qp_page := Some 2\<rparr>)
                  (example_world\<lparr>calendar_events := [meeting_row]\<rparr>))) \<le>
     (page_of (no_filter\<lparr>qp_page := Some 2\<rparr>) - 1) * limit_of (no_filter\<lparr>qp_page := Some 2\<rparr>)"
proof -
  let ?p = "no_filter\<lparr>qp_page := Some 2\<rparr>"
  let ?w = "example_world\<lparr>calendar_events := [meeting_row]\<rparr>"
  have m: "matching_events example_env (js ''u1'') ?p ?w = [meeting_row]"
    by (rule matching_one)
  have g: "getEvents example_env (js ''u1'') ?p ?w =
     Inr \<lparr>events = [], pg_page = 2, pg_limit = 50, pg_total = NaN, pg_hasNext = False,
           pg_hasPrev = True\<rparr>"
  proof -
    have p: "page_of ?p = 2" "limit_of ?p = 50" "offset_of ?p = 50"
      "qp_startDate ?p = None" "qp_endDate ?p = None"
      by (simp_all add: page_of_def limit_of_def offset_of_def no_filter_def)
    show ?thesis using no_select_from[of ?p] order_limit_offset[of ?p]
      by (simp add: getEvents_def Let_def m p)
  qed
  have h: "int (length (matching_events example_env (js ''u1'') ?p ?w)) \<le>
           (page_of ?p - 1) * limit_of ?p"
  proof -
    have "page_of ?p = 2" "limit_of ?p = 50"
      by (simp_all add: page_of_def limit_of_def no_filter_def)
    then show ?thesis by (simp add: m)
  qed
  show ?thesis using g h getEvents_past_the_end[OF g h] by simp
qed

text \<open>
  Counterexample to C8 as stated: for a user with one event, page 1 with the limit 50
  has \<open>page * limit\<close> greater than the number of matching events, and the page
  returned holds the event (and its total is \<open>NaN\<close>).
\<close>

theorem getEvents_first_page:
  "getEvents example_env (js ''u1'') no_filter (example_world\<lparr>calendar_events := [meeting_row]\<rparr>) =
     Inr \<lparr>events = [mapDatabaseEventToResponse meeting_row], pg_page = 1, pg_limit = 50,
           pg_total = NaN, pg_hasNext = False, pg_hasPrev = False\<rparr> \<and>
   length (matching_events example_env (js ''u1'') no_filter
             (example_world\<lparr>calendar_events := [meeting_row]\<rparr>)) = 1"
proof -
  have m: "matching_events example_env (js ''u1'') no_filter
             (example_world\<lparr>calendar_events := [meeting_row]\<rparr>) = [meeting_row]"
    by (simp add: events_eval)
  have p: "page_of no_filter = 1" "limit_of no_filter = 50" "offset_of no_filter = 0"
    "qp_startDate no_filter = None" "qp_endDate no_filter = None"
    by (simp_all add: page_of_def limit_of_def offset_of_def no_filter_def)
  show ?thesis using no_select_from[of no_filter] order_limit_offset[of no_filter]
    by (simp add: getEvents_def Let_def m p)
qed

section \<open>Claims about writing events\<close>

lemma retry_loop_frame:
  "retry_loop operation cfg attempt lastError w = (r, w') \<Longrightarrow>
   users w' = users w \<and> sync_state w' = sync_state w \<and> calendar_events w' = calendar_events w \<and>
   draws w' = draws w"
proof (induction operation cfg attempt lastError w rule: retry_loop.induct)
  case (1 operation retryConfig attempt lastError w)
  show ?case
  proof (cases "attempt \<le> maxRetries retryConfig")
    case False
    with "1.prems" show ?thesis by (simp add: retry_loop.simps[of operation retryConfig attempt])
  next
    case True
    note le = this
    show ?thesis
    proof (cases "operation (requests w)")
      case (Inr result)
      with le "1.prems" show ?thesis
        by (auto simp: retry_loop.simps[of operation retryConfig attempt] Let_def count_apiCall_def)
    next
      case (Inl error)
      with le "1.prems" "1.IH"(1)[OF le refl Inl] "1.IH"(2)[OF le refl Inl]
      show ?thesis
        by (auto simp: retry_loop.simps[of operation retryConfig attempt] Let_def
              count_rateLimitHit_def count_quotaExceeded_def count_authError_def
              count_networkError_def split: if_splits)
    qed
  qed
qed

lemma retry_loop_error:
  "retry_loop operation cfg attempt lastError w = (Inl e, w') \<Longrightarrow>
   e = lastError \<or>
   e = InternalServerError (js ''Google Calendar API quota exceeded'') \<or>
   e = UnauthorizedError (js ''Google Calendar authentication failed'') \<or>
   (\<exists>g. e = GoogleError g)"
proof (induction operation cfg attempt lastError w rule: retry_loop.induct)
  case (1 operation retryConfig attempt lastError w)
  show ?case
  proof (cases "attempt \<le> maxRetries retryConfig")
    case False
    with "1.prems" show ?thesis by (simp add: retry_loop.simps[of operation retryConfig attempt])
  next
    case True
    note le = this
    show ?thesis
    proof (cases "operation (requests w)")
      case (Inr result)
      with le "1.prems" show ?thesis
        by (auto simp: retry_loop.simps[of operation retryConfig attempt] Let_def)
    next
      case (Inl error)
      with le "1.prems" "1.IH"(1)[OF le refl Inl] "1.IH"(2)[OF le refl Inl]
      show ?thesis
        by (auto simp: retry_loop.simps[of operation retryConfig attempt] Let_def
              split: if_splits)
    qed
  qed
qed

lemma executeWithRetry_frame:
  "executeWithRetry operation cfg w = (r, w') \<Longrightarrow>
   users w' = users w \<and> sync_state w' = sync_state w \<and> calendar_events w' = calendar_events w \<and>
   draws w' = draws w"
  unfolding executeWithRetry_def by (rule retry_loop_frame)

lemma executeWithRetry_error:
  assumes "executeWithRetry operation cfg w = (Inl e, w')"
  shows "e = InternalServerError (js ''Google Calendar API quota exceeded'') \<or>
         e = UnauthorizedError (js ''Google Calendar authentication failed'') \<or>
         (\<exists>g. e = GoogleError g)"
proof -
  have first: "retry_loop operation cfg 0 (PlainError (js ''Unknown error'')) w = (Inl e, w')"
    using assms by (simp add: executeWithRetry_def)
  show ?thesis
  proof (cases "operation (requests w)")
    case (Inr result)
    with first show ?thesis
      by (subst (asm) retry_loop.simps) (simp add: Let_def)
  next
    case (Inl error)
    with first show ?thesis
      by (subst (asm) retry_loop.simps)
         (auto simp: Let_def split: if_splits dest!: retry_loop_error)
  qed
qed

lemma ensureValidToken_frame:
  "ensureValidToken env now u w = (r, w') \<Longrightarrow>
   users w' = users w \<and> sync_state w' = sync_state w \<and> calendar_events w' = calendar_events w"
proof -
  have st: "\<And>nt w1 x w2. storeTokens env u nt w1 = (x, w2) \<Longrightarrow>
              users w2 = users w1 \<and> sync_state w2 = sync_state w1 \<and>
              calendar_events w2 = calendar_events w1"
    subgoal for nt w1 x w2 using storeTokens_frame[of env u nt w1] by auto
    done
  have rf: "\<And>x w2. refreshGoogleToken env u w = (x, w2) \<Longrightarrow>
              users w2 = users w \<and> sync_state w2 = sync_state w \<and>
              calendar_events w2 = calendar_events w"
    by (auto simp: refreshGoogleToken_def Let_def split: sum.splits option.splits prod.splits dest!: st)
  assume "ensureValidToken env now u w = (r, w')"
  then show ?thesis
    by (auto simp: ensureValidToken_def split: sum.splits option.splits prod.splits if_splits dest!: rf)
qed

lemma getAuthenticatedCalendar_frame:
  "getAuthenticatedCalendar env now u w = (r, w') \<Longrightarrow>
   users w' = users w \<and> sync_state w' = sync_state w \<and> calendar_events w' = calendar_events w"
  by (auto simp: getAuthenticatedCalendar_def split: prod.splits sum.splits dest!: ensureValidToken_frame)

lemma getEvents_cong:
  "calendar_events w' = calendar_events w \<Longrightarrow> getEvents env u params w' = getEvents env u params w"
  by (simp add: getEvents_def matching_events_def)

text \<open>Whenever \<open>createEvent\<close> throws, the table of events is as it was.\<close>

lemma createEvent_error_frame:
  "createEvent env now userId eventData w = (Inl e, w') \<Longrightarrow>
   calendar_events w' = calendar_events w"
  by (auto simp: createEvent_def Let_def rollback_def
        split: sum.splits prod.splits option.splits
        dest!: getAuthenticatedCalendar_frame executeWithRetry_frame)

lemma stored_example':
  "getStoredTokens example_env (js ''u1'') example_world =
     Inr (Some \<lparr>accessToken = js ''tok'', refreshToken = None, expiresAt = None\<rparr>)"
  by (simp add: token_eval)

lemma calendar_example:
  "getAuthenticatedCalendar example_env now (js ''u1'') example_world = (Inr (js ''tok''), example_world)"
  by (simp add: getAuthenticatedCalendar_def ensureValidToken_def stored_example')

lemmas classify_eval = isRateLimitError_def isQuotaExceededError_def isAuthError_def
  isNetworkError_def js_includes_def sublist_code js_def

lemma backend_error_other:
  "\<not> isRateLimitError backend_error" "\<not> isQuotaExceededError backend_error"
  "\<not> isAuthError backend_error" "\<not> isNetworkError backend_error"
  by (simp_all add: classify_eval backend_error_def)

lemma insert_fails_example:
  "executeWithRetry (\<lambda>n. events_insert example_env n ev) DEFAULT_RETRY_CONFIG w =
     (Inl (GoogleError backend_error), w\<lparr>requests := requests w + 1\<rparr>)"
  by (simp add: executeWithRetry_def retry_loop.simps[where attempt = 0] example_env_def
        backend_error_other Let_def)

lemma meeting_valid: "validateEventInput meeting = Inr ()"
  by (simp add: validation_eval)

lemma meeting_mapped: "\<exists>ev. mapInputToGoogleEvent meeting = Inr ev"
  by (simp add: mapInputToGoogleEvent_def google_time_def meeting_def or_false_def Let_def)

text \<open>
  C6. For a valid event input, once the token is obtained and the payload built, if the
  upstream insert fails through the retry executor with the error \<open>e\<close>, then
  \<open>createEvent\<close> throws \<open>e\<close>, the table of events is as before the call, every
  list gives what it gave before, and \<open>e\<close> is the quota error, the authentication
  error or the last error of the provider.
\<close>

theorem createEvent_upstream_failure:
  assumes "validateEventInput eventData = Inr ()"
      and "getAuthenticatedCalendar env now userId w = (Inr calendar, w1)"
      and "mapInputToGoogleEvent eventData = Inr googleEvent"
      and "executeWithRetry (\<lambda>n. events_insert env n googleEvent) DEFAULT_RETRY_CONFIG w1 =
             (Inl e, w2)"
  shows "createEvent env now userId eventData w = (Inl e, w2) \<and>
         calendar_events w2 = calendar_events w \<and>
         (\<forall>params. getEvents env userId params w2 = getEvents env userId params w) \<and>
         (e = InternalServerError (js ''Google Calendar API quota exceeded'') \<or>
          e = UnauthorizedError (js ''Google Calendar authentication failed'') \<or>
          (\<exists>g. e = GoogleError g))"
proof -
  have c: "createEvent env now userId eventData w = (Inl e, w2)"
    using assms by (simp add: createEvent_def Let_def rollback_def)
  have f: "calendar_events w2 = calendar_events w"
    using getAuthenticatedCalendar_frame[OF assms(2)] executeWithRetry_frame[OF assms(4)] by simp
  show ?thesis using c f getEvents_cong[OF f] executeWithRetry_error[OF assms(4)] by simp
qed

text \<open>
  Witness for C6: the example meeting of \<open>u1\<close> against a provider that answers
  every insert with a 500.
\<close>

theorem createEvent_upstream_failure_witness:
  "validateEventInput meeting = Inr () \<and>
   createEvent example_env 1735800000000 (js ''u1'') meeting example_world =
     (Inl (GoogleError backend_error), example_world\<lparr>requests := 1\<rparr>) \<and>
   calendar_events (example_world\<lparr>requests := 1\<rparr>) = calendar_events example_world \<and>
   getEvents example_env (js ''u1'') no_filter (example_world\<lparr>requests := 1\<rparr>) =
     getEvents example_env (js ''u1'') no_filter example_world"
proof -
  obtain ev where ev: "mapInputToGoogleEvent meeting = Inr ev" using meeting_mapped by blast
  have x: "executeWithRetry (\<lambda>n. events_insert example_env n ev) DEFAULT_RETRY_CONFIG example_world =
     (Inl (GoogleError backend_error), example_world\<lparr>requests := 1\<rparr>)"
    using insert_fails_example[of ev example_world] by (simp add: example_world_def)
  from createEvent_upstream_failure[OF meeting_valid calendar_example ev x] meeting_valid
  show ?thesis by simp
qed

section \<open>Claims about the synchronization\<close>

lemma processGoogleEvent_frame:
  "processGoogleEvent env now u g result w = (r, w') \<Longrightarrow>
   users w' = users w \<and> sync_state w' = sync_state w"
  by (auto simp: processGoogleEvent_def createEventFromGoogle_def updateEventFromGoogle_def
        handleDeletedEvent_def split: option.splits if_splits sum.splits prod.splits)

lemma process_items_frame:
  "process_items env now u items result w = (r, w') \<Longrightarrow>
   users w' = users w \<and> sync_state w' = sync_state w"
proof (induction items arbitrary: result w)
  case Nil then show ?case by simp
next
  case (Cons g items)
  obtain x w1 where p: "processGoogleEvent env now u g result w = (x, w1)" by (cases "processGoogleEvent env now u g result w")
  from processGoogleEvent_frame[OF p] Cons.prems p Cons.IH show ?case
    by (cases x) (auto)
qed

lemma process_page_frame:
  "process_page env now u response result w = (r, w') \<Longrightarrow>
   users w' = users w \<and> sync_state w' = sync_state w"
  by (auto simp: process_page_def split: option.splits prod.splits dest!: process_items_frame)

lemma sync_pages_frame:
  "sync_pages bound env now u request pageToken result w = Some (e, r, w') \<Longrightarrow>
   users w' = users w \<and> sync_state w' = sync_state w"
proof (induction bound arbitrary: pageToken result w)
  case 0 then show ?case by simp
next
  case (Suc bound)
  obtain x w1 where x: "executeWithRetry (\<lambda>n. events_list env n (request pageToken)) DEFAULT_RETRY_CONFIG w = (x, w1)"
    by (cases "executeWithRetry (\<lambda>n. events_list env n (request pageToken)) DEFAULT_RETRY_CONFIG w")
  note f1 = executeWithRetry_frame[OF x]
  show ?case
  proof (cases x)
    case (Inl err)
    with Suc.prems x f1 show ?thesis by auto
  next
    case (Inr response)
    obtain r2 w2 where pp: "process_page env now u response result w1 = (r2, w2)"
      by (cases "process_page env now u response result w1")
    note f2 = process_page_frame[OF pp]
    show ?thesis
    proof (cases "nonempty (rs_nextPageToken response)")
      case None
      with Suc.prems x Inr pp f1 f2 show ?thesis by auto
    next
      case (Some more)
      with Suc.prems x Inr pp have "sync_pages bound env now u request (Some more) r2 w2 = Some (e, r, w')"
        by simp
      from Suc.IH[OF this] f1 f2 show ?thesis by simp
    qed
  qed
qed

lemma performFullSync_frame:
  "performFullSync bound env now u options w = Some (r, w') \<Longrightarrow>
   users w' = users w \<and> sync_state w' = sync_state w"
  by (auto simp: performFullSync_def split: option.splits prod.splits dest!: sync_pages_frame)

lemma full_request_ignores_fullSync:
  "full_request now (options\<lparr>so_fullSync := f\<rparr>) = full_request now options"
  by (rule ext) (simp add: full_request_def maxResults_or_2500_def)

lemma performFullSync_ignores_fullSync:
  "performFullSync bound env now u (options\<lparr>so_fullSync := f\<rparr>) w =
   performFullSync bound env now u options w"
  by (simp add: performFullSync_def full_request_ignores_fullSync)

lemma fall_back:
  assumes "sync_pages bound env now userId (incremental_request options syncToken) None
             (fresh_result True) w = Some (Some e, partial, w1)"
      and "sync_token_invalid e"
  shows "performIncrementalSync bound env now userId syncToken options w =
         performFullSync bound env now userId options w1"
  using assms by (simp add: performIncrementalSync_def performFullSync_ignores_fullSync)

lemma split_chars_short: "length s \<le> n \<Longrightarrow> split_chars n s = (s, [])"
  by (induction n s rule: split_chars.induct) auto

lemma split_chars_plain:
  "\<forall>u\<in>set s. \<not> high_surrogate (unat u) \<Longrightarrow> split_chars n s = (take n s, drop n s)"
  by (induction n s rule: split_chars.induct) auto

lemma bind_text_plain:
  "well_formed s \<Longrightarrow> 0 \<notin> set s \<Longrightarrow> bind_text (Some s) = Inr (Some s)"
  by (simp add: bind_text_def utf8_roundtrip)

lemma varchar_short: "length s \<le> n \<Longrightarrow> varchar n (Some s) = Inr (Some s)"
  by (simp add: varchar_def split_chars_short)

lemma bind_text_None: "bind_text None = Inr None"
  by (simp add: bind_text_def)

lemma varchar_None: "varchar n None = Inr None"
  by (simp add: varchar_def)

lemma updateSyncState_existing:
  assumes "sync_state w u = Some row"
      and "bind_text tok = Inr bound_token" "bind_text err = Inr bound_error"
      and "varchar 500 bound_token = Inr token"
  shows "updateSyncState now u tok ok err w =
     (Inr (),
      w\<lparr>sync_state := (sync_state w)(u \<mapsto>
           row\<lparr>next_sync_token := token,
               last_sync_time := (if ok then Some now else last_sync_time row),
               full_sync_completed := (if ok then Some True else full_sync_completed row),
               sync_error := bound_error,
               sync_error_count :=
                 (if ok then Some 0
                  else Some ((case sync_error_count row of None \<Rightarrow> 0 | Some n \<Rightarrow> n) + 1))\<rparr>)\<rparr>)"
  using assms by (simp add: updateSyncState_def)

lemma updateSyncState_refused:
  "updateSyncState now u tok ok err w = (Inl e, w') \<Longrightarrow> w' = w"
  by (auto simp: updateSyncState_def split: sum.splits option.splits if_splits)

text \<open>
  An error of the provider that says the sync token is stale and that the retry
  executor takes for none of its four classes ends the first page of the incremental
  sync as the error thrown, with one request sent.
\<close>

lemma stale_first_page:
  assumes "events_list env (requests w) (incremental_request options syncToken None) = Inl g"
      and "ge_code g = Some (NumCode 410) \<or>
           js_includes (ge_message g) (js ''Sync token is no longer valid'')"
      and "\<not> isRateLimitError g" "\<not> isQuotaExceededError g" "\<not> isAuthError g"
          "\<not> isNetworkError g"
  shows "sync_pages (Suc b) env now u (incremental_request options syncToken) None result w =
           Some (Some (GoogleError g), result, w\<lparr>requests := requests w + 1\<rparr>) \<and>
         sync_token_invalid (GoogleError g)"
  using assms
  by (simp add: executeWithRetry_def retry_loop.simps[where attempt = 0] Let_def
        sync_token_invalid_def)

text \<open>
  C4. For a user with a stored sync cursor after a completed full sync and a request
  that does not ask for a full sync: if the provider answers the request that carries
  the sync token with an error that has status 410 or the message of an invalid sync
  token, and the retry executor throws this error as it is (none of its four classes
  matches it), then the incremental sync is the full sync with the same options from
  the state reached; and when that full sync returns a result whose sync token the
  column of the cursor accepts, the whole call returns this result, not the error, and
  the cursor holds the token as stored.
\<close>

theorem stale_cursor_falls_back:
  assumes auth: "getAuthenticatedCalendar env now userId w0 = (Inr calendar, w)"
      and cursor: "sync_state w userId = Some cursor"
                  "nonempty (next_sync_token cursor) = Some syncToken"
                  "full_sync_completed cursor = Some True"
      and opts: "so_fullSync options \<noteq> Some True"
      and rejected: "events_list env (requests w) (incremental_request options syncToken None) =
                       Inl g"
      and stale: "ge_code g = Some (NumCode 410) \<or>
                  js_includes (ge_message g) (js ''Sync token is no longer valid'')"
      and thrown: "\<not> isRateLimitError g" "\<not> isQuotaExceededError g" "\<not> isAuthError g"
                  "\<not> isNetworkError g"
      and full: "performFullSync bound env now userId options (w\<lparr>requests := requests w + 1\<rparr>) =
                   Some (result, w2)"
      and accepted: "bind_text (nextSyncToken result) = Inr bound_token"
                    "varchar 500 bound_token = Inr token"
  shows "performIncrementalSync bound env now userId syncToken options w = Some (result, w2) \<and>
         (\<exists>w3 c. syncWithGoogle bound env now userId options w0 = Some (Inr result, w3) \<and>
                 sync_state w3 userId = Some c \<and> next_sync_token c = token)"
proof -
  let ?w1 = "w\<lparr>requests := requests w + 1\<rparr>"
  obtain b where b: "bound = Suc b" using full by (cases bound) (simp_all add: performFullSync_def)
  have pages: "sync_pages bound env now userId (incremental_request options syncToken) None
                 (fresh_result True) w = Some (Some (GoogleError g), fresh_result True, ?w1)"
    and invalid: "sync_token_invalid (GoogleError g)"
    using stale_first_page[OF rejected stale thrown, of b now userId "fresh_result True"] b by simp_all
  have inc: "performIncrementalSync bound env now userId syncToken options w = Some (result, w2)"
    using fall_back[OF pages invalid] full by simp
  have s1: "sync_state ?w1 userId = Some cursor" using cursor(1) by simp
  have s2: "sync_state w2 userId = Some cursor" using performFullSync_frame[OF full] s1 by simp
  have tok: "or_default (next_sync_token cursor) [] = syncToken"
    using cursor(2) by (simp add: or_default_def)
  note up = updateSyncState_existing[OF s2 accepted(1) bind_text_None accepted(2),
                                     of now "success result"]
  have "syncWithGoogle bound env now userId options w0 =
          Some (Inr result, snd (updateSyncState now userId (nextSyncToken result) (success result) None w2))"
    using auth cursor opts inc tok up
    by (simp add: syncWithGoogle_def getSyncState_def Let_def)
  then show ?thesis using inc up by simp
qed

lemma calendar_busy:
  "getAuthenticatedCalendar example_env now (js ''u1'') busy_world = (Inr (js ''tok''), busy_world)"
proof -
  have "getStoredTokens example_env (js ''u1'') busy_world =
     Inr (Some \<lparr>accessToken = js ''tok'', refreshToken = None, expiresAt = None\<rparr>)"
    by (simp add: token_eval busy_world_def)
  then show ?thesis by (simp add: getAuthenticatedCalendar_def ensureValidToken_def)
qed

lemma list_ok_example:
  "executeWithRetry (\<lambda>n. events_list example_env n rq) DEFAULT_RETRY_CONFIG w =
     (Inr \<lparr>rs_items = Some [], rs_nextPageToken = None, rs_nextSyncToken = Some (js ''nst-2'')\<rparr>,
      count_apiCall (w\<lparr>requests := requests w + 1\<rparr>))"
  by (simp add: executeWithRetry_def retry_loop.simps[where attempt = 0] example_env_def Let_def)

lemma pages_example:
  "sync_pages (Suc 0) example_env now u request None result w =
     Some (None, result\<lparr>nextSyncToken := Some (js ''nst-2'')\<rparr>,
           count_apiCall (w\<lparr>requests := requests w + 1\<rparr>))"
  by (simp add: list_ok_example process_page_def nonempty_def js_def)

lemma start_sync_refuses: "start_sync_for_user (js ''u1'') busy_world = (Inr False, busy_world)"
  by (simp add: start_sync_for_user_def busy_world_def)

lemma updateSyncState_keeps_flag:
  assumes "sync_state w u = Some row" and "updateSyncState now u tok ok err w = (r, w')"
  shows "\<exists>row'. sync_state w' u = Some row' \<and> sync_in_progress row' = sync_in_progress row"
  using assms by (auto simp: updateSyncState_def split: sum.splits)

lemma performIncrementalSync_frame:
  "performIncrementalSync bound env now u tok options w = Some (r, w') \<Longrightarrow>
   users w' = users w \<and> sync_state w' = sync_state w"
  by (auto simp: performIncrementalSync_def split: option.splits prod.splits if_splits
        dest!: sync_pages_frame performFullSync_frame)

lemma sync_caught_keeps_flag:
  assumes "sync_state w u = Some row" and "sync_caught now u e w = (r, w')"
  shows "\<exists>row'. sync_state w' u = Some row' \<and> sync_in_progress row' = sync_in_progress row"
proof -
  obtain x w1 where up: "updateSyncState now u None False (Some (message e)) w = (x, w1)"
    by (cases "updateSyncState now u None False (Some (message e)) w")
  have "w' = w1" using assms(2) up by (auto simp: sync_caught_def split: sum.splits)
  with updateSyncState_keeps_flag[OF assms(1) up] show ?thesis by simp
qed

lemma syncWithGoogle_keeps_flag:
  assumes row: "sync_state w u = Some row"
      and run: "syncWithGoogle bound env now u options w = Some (r, w')"
  shows "\<exists>row'. sync_state w' u = Some row' \<and> sync_in_progress row' = sync_in_progress row"
proof -
  obtain a w1 where auth: "getAuthenticatedCalendar env now u w = (a, w1)"
    by (cases "getAuthenticatedCalendar env now u w")
  have r1: "sync_state w1 u = Some row" using getAuthenticatedCalendar_frame[OF auth] row by simp
  show ?thesis
  proof (cases a)
    case (Inl e)
    with run auth have "sync_caught now u e w1 = (r, w')" by (simp add: syncWithGoogle_def)
    from sync_caught_keeps_flag[OF r1 this] show ?thesis .
  next
    case (Inr calendar)
    let ?sync = "if so_fullSync options = Some True \<or>
                    nonempty (next_sync_token (getSyncState u w1)) = None \<or>
                    full_sync_completed (getSyncState u w1) \<noteq> Some True
                 then performFullSync bound env now u options w1
                 else performIncrementalSync bound env now u
                        (or_default (next_sync_token (getSyncState u w1)) []) options w1"
    from run auth Inr obtain result w2 where s: "?sync = Some (result, w2)"
      by (auto simp: syncWithGoogle_def Let_def split: option.splits)
    have r2: "sync_state w2 u = Some row"
      using s r1 performFullSync_frame performIncrementalSync_frame
      by (auto split: if_splits)
    obtain x w3 where up: "updateSyncState now u (nextSyncToken result) (success result) None w2 = (x, w3)"
      by (cases "updateSyncState now u (nextSyncToken result) (success result) None w2")
    from updateSyncState_keeps_flag[OF r2 up] obtain row3 where
      r3: "sync_state w3 u = Some row3" "sync_in_progress row3 = sync_in_progress row" by blast
    show ?thesis
    proof (cases x)
      case (Inl e)
      with run auth Inr s up have "sync_caught now u e w3 = (r, w')"
        by (auto simp: syncWithGoogle_def Let_def)
      from sync_caught_keeps_flag[OF r3(1) this] r3(2) show ?thesis by auto
    next
      case (Inr y)
      with run auth \<open>a = Inr calendar\<close> s up have "w' = w3"
        by (auto simp: syncWithGoogle_def Let_def)
      with r3 show ?thesis by simp
    qed
  qed
qed

lemma updateSyncState_failed_token:
  assumes "sync_state w u = Some row" and "updateSyncState now u None False err w = (Inr x, w')"
  shows "\<exists>row'. sync_state w' u = Some row' \<and> next_sync_token row' = None \<and>
               full_sync_completed row' = full_sync_completed row \<and>
               last_sync_time row' = last_sync_time row"
  using assms by (auto simp: updateSyncState_def bind_text_None varchar_None split: sum.splits)

lemma complete_sync_failed_keeps_token:
  assumes "sync_state w u = Some row"
  shows "\<exists>row'. sync_state (complete_sync_for_user_failed u msg w) u = Some row' \<and>
               next_sync_token row' = next_sync_token row \<and>
               full_sync_completed row' = full_sync_completed row \<and>
               sync_in_progress row' = Some False \<and> sync_error row' = msg"
  using assms by (simp add: complete_sync_for_user_failed_def)

lemma list_fails_failing:
  "executeWithRetry (\<lambda>n. events_list failing_env n rq) DEFAULT_RETRY_CONFIG w =
     (Inl (GoogleError backend_error), w\<lparr>requests := requests w + 1\<rparr>)"
  by (simp add: executeWithRetry_def retry_loop.simps[where attempt = 0] failing_env_def
        example_env_def backend_error_other Let_def)

lemma calendar_failing:
  "getAuthenticatedCalendar failing_env now (js ''u1'') example_world = (Inr (js ''tok''), example_world)"
proof -
  have "getStoredTokens failing_env (js ''u1'') example_world =
     Inr (Some \<lparr>accessToken = js ''tok'', refreshToken = None, expiresAt = None\<rparr>)"
    by (simp add: token_eval failing_env_def)
  then show ?thesis by (simp add: getAuthenticatedCalendar_def ensureValidToken_def)
qed

lemma backend_error_not_stale: "\<not> sync_token_invalid (GoogleError backend_error)"
  by (simp add: sync_token_invalid_def backend_error_def js_includes_def sublist_code js_def)

lemma calendar_expiring:
  "getAuthenticatedCalendar expiring_env now (js ''u1'') example_world = (Inr (js ''tok''), example_world)"
proof -
  have "getStoredTokens expiring_env (js ''u1'') example_world =
     Inr (Some \<lparr>accessToken = js ''tok'', refreshToken = None, expiresAt = None\<rparr>)"
    by (simp add: token_eval expiring_env_def)
  then show ?thesis by (simp add: getAuthenticatedCalendar_def ensureValidToken_def)
qed

lemma stale_error_other:
  "\<not> isRateLimitError stale_error" "\<not> isQuotaExceededError stale_error"
  "\<not> isAuthError stale_error" "\<not> isNetworkError stale_error"
  by (simp_all add: classify_eval stale_error_def)

lemma stale_error_invalid: "sync_token_invalid (GoogleError stale_error)"
  by (simp add: sync_token_invalid_def stale_error_def)

lemma pages_full:
  "sync_pages (Suc 0) expiring_env now u (full_request now options) None result w =
     Some (None, result\<lparr>nextSyncToken := Some (js ''nst-2'')\<rparr>,
           count_apiCall (w\<lparr>requests := requests w + 1\<rparr>))"
  by (simp add: executeWithRetry_def retry_loop.simps[where attempt = 0] expiring_env_def
        example_env_def full_request_def empty_page_def process_page_def nonempty_def js_def Let_def)

lemma nst2_plain:
  "bind_text (Some (js ''nst-2'')) = Inr (Some (js ''nst-2''))"
  "varchar 500 (Some (js ''nst-2'')) = Inr (Some (js ''nst-2''))"
proof -
  have "well_formed (js ''nst-2'')" by (simp add: vault_eval)
  moreover have "0 \<notin> set (js ''nst-2'')" by (simp add: js_def)
  ultimately show "bind_text (Some (js ''nst-2'')) = Inr (Some (js ''nst-2''))"
    by (rule bind_text_plain)
  show "varchar 500 (Some (js ''nst-2'')) = Inr (Some (js ''nst-2''))"
    by (rule varchar_short) (simp add: js_def)
qed

lemma plain_well_formed:
  "\<forall>u\<in>set s. \<not> high_surrogate u \<and> \<not> low_surrogate u \<Longrightarrow> paired_surrogates s"
  by (induction s rule: paired_surrogates.induct) auto

lemma long_token_bound: "bind_text (Some long_token) = Inr (Some long_token)"
proof -
  have "well_formed long_token"
    unfolding well_formed_def long_token_def
    by (rule plain_well_formed) (simp add: high_surrogate_def low_surrogate_def)
  moreover have "0 \<notin> set long_token" by (simp add: long_token_def)
  ultimately show ?thesis by (rule bind_text_plain)
qed

lemma long_token_refused:
  "varchar 500 (Some long_token) =
     Inl (DbError (js ''value too long for type character varying(500)''))"
proof -
  have "split_chars 500 long_token = (take 500 long_token, drop 500 long_token)"
    by (rule split_chars_plain) (simp add: long_token_def high_surrogate_def)
  moreover have "drop 500 long_token = [97]" by (simp add: long_token_def)
  ultimately show ?thesis
    by (simp add: varchar_def space_unit_def digit_char_def js_def)
qed

lemma calendar_long:
  "getAuthenticatedCalendar long_token_env now (js ''u1'') example_world = (Inr (js ''tok''), example_world)"
proof -
  have "getStoredTokens long_token_env (js ''u1'') example_world =
     Inr (Some \<lparr>accessToken = js ''tok'', refreshToken = None, expiresAt = None\<rparr>)"
    by (simp add: token_eval long_token_env_def)
  then show ?thesis by (simp add: getAuthenticatedCalendar_def ensureValidToken_def)
qed

lemma calendar_reclassifying:
  "getAuthenticatedCalendar reclassifying_env now (js ''u1'') example_world = (Inr (js ''tok''), example_world)"
proof -
  have "getStoredTokens reclassifying_env (js ''u1'') example_world =
     Inr (Some \<lparr>accessToken = js ''tok'', refreshToken = None, expiresAt = None\<rparr>)"
    by (simp add: token_eval reclassifying_env_def)
  then show ?thesis by (simp add: getAuthenticatedCalendar_def ensureValidToken_def)
qed

lemma pages_stale_long:
  "sync_pages (Suc 0) long_token_env now u (incremental_request options (js ''nst-1'')) None result w =
     Some (Some (GoogleError stale_error), result, w\<lparr>requests := requests w + 1\<rparr>)"
  by (simp add: executeWithRetry_def retry_loop.simps[where attempt = 0] long_token_env_def
        example_env_def incremental_request_def stale_error_other Let_def)

lemma long_token_nonempty: "nonempty (Some long_token) = Some long_token" "nonempty None = None"
  by (simp_all add: nonempty_def long_token_def)

lemma pages_full_long:
  "sync_pages (Suc 0) long_token_env now u (full_request now options) None result w =
     Some (None, result\<lparr>nextSyncToken := Some long_token\<rparr>,
           count_apiCall (w\<lparr>requests := requests w + 1\<rparr>))"
  by (simp add: executeWithRetry_def retry_loop.simps[where attempt = 0] long_token_env_def
        example_env_def full_request_def empty_page_def process_page_def long_token_nonempty Let_def)

lemma unauthorized_stale_error_auth:
  "\<not> isRateLimitError unauthorized_stale_error" "\<not> isQuotaExceededError unauthorized_stale_error"
  "isAuthError unauthorized_stale_error"
  by (simp_all add: classify_eval unauthorized_stale_error_def)

lemma unauthorized_stale_error_stale:
  "ge_code unauthorized_stale_error = Some (NumCode 410)"
  "js_includes (ge_message unauthorized_stale_error) (js ''Sync token is no longer valid'')"
  by (simp_all add: unauthorized_stale_error_def js_includes_def sublist_code js_def)

lemma pages_reclassified:
  "sync_pages (Suc 0) reclassifying_env now u (incremental_request options (js ''nst-1'')) None result w =
     Some (Some (UnauthorizedError (js ''Google Calendar authentication failed'')), result,
           count_authError (w\<lparr>requests := requests w + 1\<rparr>))"
  by (simp add: executeWithRetry_def retry_loop.simps[where attempt = 0] reclassifying_env_def
        example_env_def incremental_request_def unauthorized_stale_error_auth Let_def)

lemma unauthorized_not_stale:
  "\<not> sync_token_invalid (UnauthorizedError d)"
  by (simp add: sync_token_invalid_def js_includes_def sublist_code js_def)

lemma value_too_long:
  "bind_text (Some (js ''value too long for type character varying(500)'')) =
     Inr (Some (js ''value too long for type character varying(500)''))"
proof -
  have "well_formed (js ''value too long for type character varying(500)'')"
    by (simp add: vault_eval)
  moreover have "0 \<notin> set (js ''value too long for type character varying(500)'')"
    by (simp add: js_def)
  ultimately show ?thesis by (rule bind_text_plain)
qed

text \<open>
  Witness for C4: the provider that refuses every sync token with a 410 and answers a
  full list with the empty page and the token \<open>nst-2\<close>.
\<close>

theorem stale_cursor_falls_back_witness:
  "events_list expiring_env (requests example_world)
     (incremental_request no_options (js ''nst-1'') None) = Inl stale_error \<and>
   ge_code stale_error = Some (NumCode 410) \<and>
   performFullSync 1 expiring_env 1735800000000 (js ''u1'') no_options
     (example_world\<lparr>requests := 1\<rparr>) =
     Some ((fresh_result True)\<lparr>nextSyncToken := Some (js ''nst-2'')\<rparr>,
           count_apiCall (example_world\<lparr>requests := 2\<rparr>)) \<and>
   performIncrementalSync 1 expiring_env 1735800000000 (js ''u1'') (js ''nst-1'') no_options
     example_world =
     Some ((fresh_result True)\<lparr>nextSyncToken := Some (js ''nst-2'')\<rparr>,
           count_apiCall (example_world\<lparr>requests := 2\<rparr>)) \<and>
   (\<exists>w3 c. syncWithGoogle 1 expiring_env 1735800000000 (js ''u1'') no_options example_world =
             Some (Inr ((fresh_result True)\<lparr>nextSyncToken := Some (js ''nst-2'')\<rparr>), w3) \<and>
           sync_state w3 (js ''u1'') = Some c \<and> next_sync_token c = Some (js ''nst-2''))"
proof -
  let ?now = "1735800000000 :: int"
  let ?w1 = "example_world\<lparr>requests := requests example_world + 1\<rparr>"
  let ?r = "(fresh_result True)\<lparr>nextSyncToken := Some (js ''nst-2'')\<rparr>"
  have c: "sync_state example_world (js ''u1'') = Some example_cursor"
    by (simp add: example_world_def)
  have t: "nonempty (next_sync_token example_cursor) = Some (js ''nst-1'')"
    by (simp add: example_cursor_def nonempty_def js_def)
  have f: "full_sync_completed example_cursor = Some True" by (simp add: example_cursor_def)
  have o: "so_fullSync no_options \<noteq> Some True" by (simp add: no_options_def)
  have rq: "requests example_world = 0" by (simp add: example_world_def)
  have rej: "events_list expiring_env (requests example_world)
               (incremental_request no_options (js ''nst-1'') None) = Inl stale_error"
    by (simp add: expiring_env_def example_env_def incremental_request_def)
  have code: "ge_code stale_error = Some (NumCode 410)" by (simp add: stale_error_def)
  have full: "performFullSync 1 expiring_env ?now (js ''u1'') no_options ?w1 =
     Some (?r, count_apiCall (?w1\<lparr>requests := requests ?w1 + 1\<rparr>))"
    unfolding performFullSync_def One_nat_def pages_full by simp
  have b: "bind_text (nextSyncToken ?r) = Inr (Some (js ''nst-2''))"
    using nst2_plain(1) by simp
  from stale_cursor_falls_back[OF calendar_expiring c t f o rej disjI1[OF code] stale_error_other
         full b nst2_plain(2)] rej code full rq
  show ?thesis by (simp add: numeral_2_eq_2)
qed

text \<open>
  C4 (the claim as it was stated fails, in two ways). First: the provider refuses the
  sync token of \<open>u1\<close> with status 410 and answers the full list with a sync token of
  501 characters. The full sync succeeds, but its token does not fit
  \<open>next_sync_token VARCHAR(500)\<close>: the statement of \<open>updateSyncState\<close> throws, and the
  call returns the failure of its \<open>catch\<close>, not the result of the full sync. Second:
  the provider refuses the sync token with status 410 and a message in which
  \<open>isAuthError\<close> finds \<open>unauthorized\<close>: the retry executor throws an
  \<open>UnauthorizedError\<close> in its place, the incremental sync fails with it, and no full
  list is requested.
\<close>

theorem stale_cursor_claim_fails:
  "(events_list long_token_env (requests example_world)
     (incremental_request no_options (js ''nst-1'') None) = Inl stale_error \<and>
   ge_code stale_error = Some (NumCode 410) \<and>
   performFullSync 1 long_token_env 1735800000000 (js ''u1'') no_options
     (example_world\<lparr>requests := 1\<rparr>) =
     Some ((fresh_result True)\<lparr>nextSyncToken := Some long_token\<rparr>,
           count_apiCall (example_world\<lparr>requests := 2\<rparr>)) \<and>
   syncWithGoogle 1 long_token_env 1735800000000 (js ''u1'') no_options example_world =
     Some (Inr \<lparr>success = False, eventsProcessed = 0, eventsCreated = 0, eventsUpdated = 0,
                 eventsDeleted = 0, nextSyncToken = None,
                 errors = [\<lparr>ce_type = SYNC_ERROR,
                            ce_message = js ''value too long for type character varying(500)''\<rparr>]\<rparr>,
           example_world
             \<lparr>sync_state :=
                [js ''u1'' \<mapsto>
                   example_cursor\<lparr>next_sync_token := None,
                                  sync_error :=
                                    Some (js ''value too long for type character varying(500)''),
                                  sync_error_count := Some 1\<rparr>],
              metrics := (metrics example_world)\<lparr>apiCallsCount := 1\<rparr>,
              requests := 2\<rparr>)) \<and>
   (events_list reclassifying_env (requests example_world)
     (incremental_request no_options (js ''nst-1'') None) = Inl unauthorized_stale_error \<and>
   ge_code unauthorized_stale_error = Some (NumCode 410) \<and>
   syncWithGoogle 1 reclassifying_env 1735800000000 (js ''u1'') no_options example_world =
     Some (Inr \<lparr>success = False, eventsProcessed = 0, eventsCreated = 0, eventsUpdated = 0,
                 eventsDeleted = 0, nextSyncToken = None,
                 errors = [\<lparr>ce_type = SYNC_ERROR, ce_message = js ''Unauthorized''\<rparr>]\<rparr>,
           example_world
             \<lparr>sync_state :=
                [js ''u1'' \<mapsto> example_cursor\<lparr>next_sync_token := None,
                                                sync_error_count := Some 1\<rparr>],
              metrics := (metrics example_world)\<lparr>authErrors := 1\<rparr>,
              requests := 1\<rparr>))"
  (is "?first \<and> ?second")
proof (rule conjI)
  show ?first
  proof -
    let ?now = "1735800000000 :: int"
    let ?w1 = "example_world\<lparr>requests := requests example_world + 1\<rparr>"
    let ?w2 = "count_apiCall (?w1\<lparr>requests := requests ?w1 + 1\<rparr>)"
    let ?r = "(fresh_result True)\<lparr>nextSyncToken := Some long_token\<rparr>"
    let ?e = "DbError (js ''value too long for type character varying(500)'')"
    have rej: "events_list long_token_env (requests example_world)
                 (incremental_request no_options (js ''nst-1'') None) = Inl stale_error"
      by (simp add: long_token_env_def example_env_def incremental_request_def)
    have code: "ge_code stale_error = Some (NumCode 410)" by (simp add: stale_error_def)
    have rq: "requests example_world = 0" by (simp add: example_world_def)
    have full: "performFullSync 1 long_token_env ?now (js ''u1'') no_options ?w1 = Some (?r, ?w2)"
      unfolding performFullSync_def One_nat_def pages_full_long by simp
    have full': "performFullSync (Suc 0) long_token_env ?now (js ''u1'')
                   (no_options\<lparr>so_fullSync := Some True\<rparr>) ?w1 = Some (?r, ?w2)"
      using full by (simp add: performFullSync_ignores_fullSync)
    have inc: "performIncrementalSync (Suc 0) long_token_env ?now (js ''u1'') (js ''nst-1'')
                 no_options example_world = Some (?r, ?w2)"
      unfolding performIncrementalSync_def pages_stale_long
      using full' by (simp add: stale_error_invalid)
    have up1: "updateSyncState ?now (js ''u1'') (Some long_token) True None ?w2 = (Inl ?e, ?w2)"
      by (simp add: updateSyncState_def long_token_bound long_token_refused bind_text_None)
    have c2: "sync_state ?w2 (js ''u1'') = Some example_cursor"
      by (simp add: example_world_def count_apiCall_def)
    have up2: "updateSyncState ?now (js ''u1'') None False (Some (message ?e)) ?w2 =
       (Inr (),
        ?w2\<lparr>sync_state := (sync_state ?w2)(js ''u1'' \<mapsto>
             example_cursor\<lparr>next_sync_token := None,
                 last_sync_time := last_sync_time example_cursor,
                 full_sync_completed := full_sync_completed example_cursor,
                 sync_error := Some (js ''value too long for type character varying(500)''),
                 sync_error_count :=
                   Some ((case sync_error_count example_cursor of None \<Rightarrow> 0 | Some n \<Rightarrow> n) + 1)\<rparr>)\<rparr>)"
      using updateSyncState_existing[OF c2 bind_text_None _ varchar_None, of
              "Some (message ?e)" "Some (js ''value too long for type character varying(500)'')"
              ?now False] value_too_long
      by simp
    have caught: "sync_caught ?now (js ''u1'') ?e ?w2 =
       (Inr (sync_failure (fresh_result False) ?e),
        ?w2\<lparr>sync_state := (sync_state ?w2)(js ''u1'' \<mapsto>
             example_cursor\<lparr>next_sync_token := None,
                 last_sync_time := last_sync_time example_cursor,
                 full_sync_completed := full_sync_completed example_cursor,
                 sync_error := Some (js ''value too long for type character varying(500)''),
                 sync_error_count :=
                   Some ((case sync_error_count example_cursor of None \<Rightarrow> 0 | Some n \<Rightarrow> n) + 1)\<rparr>)\<rparr>)"
      unfolding sync_caught_def up2 by simp
    have t: "nonempty (next_sync_token example_cursor) = Some (js ''nst-1'')"
      by (simp add: example_cursor_def nonempty_def js_def)
    have c: "sync_state example_world (js ''u1'') = Some example_cursor"
      by (simp add: example_world_def)
    have sync: "syncWithGoogle 1 long_token_env ?now (js ''u1'') no_options example_world =
                  Some (sync_caught ?now (js ''u1'') ?e ?w2)"
      using calendar_long[of ?now] inc up1 t c
      by (simp add: syncWithGoogle_def getSyncState_def Let_def no_options_def or_default_def
            example_cursor_def fresh_result_def)
    have final: "syncWithGoogle 1 long_token_env ?now (js ''u1'') no_options example_world =
       Some (Inr \<lparr>success = False, eventsProcessed = 0, eventsCreated = 0, eventsUpdated = 0,
                   eventsDeleted = 0, nextSyncToken = None,
                   errors = [\<lparr>ce_type = SYNC_ERROR,
                              ce_message = js ''value too long for type character varying(500)''\<rparr>]\<rparr>,
             example_world
               \<lparr>sync_state :=
                  [js ''u1'' \<mapsto>
                     example_cursor\<lparr>next_sync_token := None,
                                    sync_error :=
                                      Some (js ''value too long for type character varying(500)''),
                                    sync_error_count := Some 1\<rparr>],
                metrics := (metrics example_world)\<lparr>apiCallsCount := 1\<rparr>,
                requests := 2\<rparr>)"
      unfolding sync caught
      by (simp add: sync_failure_def fresh_result_def example_world_def example_cursor_def
            count_apiCall_def)
    show ?thesis using rej code full final rq by (simp add: numeral_2_eq_2)
  qed
next
  show ?second
  proof -
    let ?now = "1735800000000 :: int"
    let ?e = "UnauthorizedError (js ''Google Calendar authentication failed'')"
    let ?w1 = "count_authError (example_world\<lparr>requests := requests example_world + 1\<rparr>)"
    have rej: "events_list reclassifying_env (requests example_world)
                 (incremental_request no_options (js ''nst-1'') None) = Inl unauthorized_stale_error"
      by (simp add: reclassifying_env_def example_env_def incremental_request_def)
    have inc: "performIncrementalSync (Suc 0) reclassifying_env ?now (js ''u1'') (js ''nst-1'')
                 no_options example_world =
               Some (sync_failure (fresh_result True) ?e, ?w1)"
      unfolding performIncrementalSync_def pages_reclassified
      by (simp add: unauthorized_not_stale)
    have sync: "syncWithGoogle 1 reclassifying_env ?now (js ''u1'') no_options example_world =
       Some (Inr \<lparr>success = False, eventsProcessed = 0, eventsCreated = 0, eventsUpdated = 0,
                   eventsDeleted = 0, nextSyncToken = None,
                   errors = [\<lparr>ce_type = SYNC_ERROR, ce_message = js ''Unauthorized''\<rparr>]\<rparr>,
             example_world
               \<lparr>sync_state :=
                  [js ''u1'' \<mapsto> example_cursor\<lparr>next_sync_token := None,
                                                  sync_error_count := Some 1\<rparr>],
                metrics := (metrics example_world)\<lparr>authErrors := 1\<rparr>,
                requests := 1\<rparr>)"
      using inc calendar_reclassifying[of ?now]
      by (simp add: syncWithGoogle_def getSyncState_def Let_def no_options_def
            example_cursor_def nonempty_def or_default_def updateSyncState_def
            bind_text_None varchar_None count_authError_def
            sync_failure_def fresh_result_def example_world_def js_def)
    show ?thesis using rej unauthorized_stale_error_stale(1) sync by simp
  qed
qed

text \<open>
  C2 (the code at the failing input). While the cursor of \<open>u1\<close> says that a sync
  is in progress, \<open>syncWithGoogle\<close> runs the sync to its end and returns its result:
  it neither reads the flag nor writes it.
\<close>

theorem syncWithGoogle_while_running:
  "syncWithGoogle 1 example_env 1735800000000 (js ''u1'') no_options busy_world =
     Some (Inr \<lparr>success = True, eventsProcessed = 0, eventsCreated = 0, eventsUpdated = 0,
                 eventsDeleted = 0, nextSyncToken = Some (js ''nst-2''), errors = []\<rparr>,
           busy_world
             \<lparr>sync_state :=
                [js ''u1'' \<mapsto> example_cursor\<lparr>sync_in_progress := Some True,
                                                next_sync_token := Some (js ''nst-2''),
                                                last_sync_time := Some 1735800000000\<rparr>],
              metrics := (metrics busy_world)\<lparr>apiCallsCount := 1\<rparr>,
              requests := 1\<rparr>)"
proof -
  have c: "sync_state busy_world (js ''u1'') = Some (example_cursor\<lparr>sync_in_progress := Some True\<rparr>)"
    by (simp add: busy_world_def)
  have inc: "performIncrementalSync (Suc 0) example_env 1735800000000 (js ''u1'') (js ''nst-1'') no_options busy_world =
     Some (\<lparr>success = True, eventsProcessed = 0, eventsCreated = 0, eventsUpdated = 0,
                 eventsDeleted = 0, nextSyncToken = Some (js ''nst-2''), errors = []\<rparr>,
           count_apiCall (busy_world\<lparr>requests := requests busy_world + 1\<rparr>))"
    unfolding performIncrementalSync_def pages_example by (simp add: fresh_result_def)
  show ?thesis
    using inc calendar_busy[of 1735800000000] nst2_plain
    by (simp add: syncWithGoogle_def getSyncState_def Let_def no_options_def
          example_cursor_def nonempty_def or_default_def updateSyncState_def count_apiCall_def
          bind_text_None busy_world_def example_world_def js_def)
qed

text \<open>
  C3 (the code at the failing input). The cursor of \<open>u1\<close> holds the sync token
  \<open>nst-1\<close>; the list fails with a 500; after the failed run the cursor holds no
  sync token, and no error message.
\<close>

theorem syncWithGoogle_failure_clears_token:
  "syncWithGoogle 1 failing_env 1735800000000 (js ''u1'') no_options example_world =
     Some (Inr \<lparr>success = False, eventsProcessed = 0, eventsCreated = 0, eventsUpdated = 0,
                 eventsDeleted = 0, nextSyncToken = None,
                 errors = [\<lparr>ce_type = SYNC_ERROR, ce_message = js ''Backend Error''\<rparr>]\<rparr>,
           example_world
             \<lparr>sync_state :=
                [js ''u1'' \<mapsto> example_cursor\<lparr>next_sync_token := None,
                                                sync_error_count := Some 1\<rparr>],
              requests := 1\<rparr>)"
proof -
  have pages: "sync_pages (Suc 0) failing_env 1735800000000 (js ''u1'')
                 (incremental_request no_options (js ''nst-1'')) None (fresh_result True) example_world =
               Some (Some (GoogleError backend_error), fresh_result True,
                     example_world\<lparr>requests := requests example_world + 1\<rparr>)"
    by (simp add: list_fails_failing)
  have inc: "performIncrementalSync (Suc 0) failing_env 1735800000000 (js ''u1'') (js ''nst-1'')
               no_options example_world =
             Some (sync_failure (fresh_result True) (GoogleError backend_error),
                   example_world\<lparr>requests := requests example_world + 1\<rparr>)"
    unfolding performIncrementalSync_def pages by (simp add: backend_error_not_stale)
  show ?thesis
    using inc calendar_failing[of 1735800000000]
    by (simp add: syncWithGoogle_def getSyncState_def Let_def no_options_def
          example_cursor_def nonempty_def or_default_def updateSyncState_def
          bind_text_None varchar_None
          sync_failure_def fresh_result_def backend_error_def
          example_world_def js_def)
qed

end
